theory Spec2Isabelle
  imports Complex_Main
begin

section \<open>The generic train and validate loops of trojanzoo/utils/train.py\<close>

text \<open>
  The loops orchestrate external collaborators: the module, the optimizer, the
  learning-rate schedule, the loss scaler, the EMA tracker, the injected hooks and the
  metrics sink. For \<open>train\<close> every call to a collaborator is an \<open>event\<close>; a run
  threads an abstract world \<open>'w\<close> (whatever state the collaborators hold) and the
  trace of the calls made so far. What a call does to the world, and the values the
  loop reads back from it, are parameters (\<open>collaborators\<close>). Python floats are
  idealised as reals. Exceptions raised by the loop's own statements are values of
  \<open>error\<close>; the collaborators themselves are taken not to raise.
\<close>

datatype error = TypeError | ZeroDivisionError | UnboundLocalError

datatype mode = Mode_train | Mode_valid

subsection \<open>SmoothedValue and MetricLogger\<close>

text \<open>
  Modelled from the spec: the classes SmoothedValue and MetricLogger of
  trojanzoo.utils.logger are not among the sources. Spec 4.1: \<open>update(value, weight)\<close>
  folds an observation into a bounded-window deque and into the unbounded accumulators
  total and count; \<open>global_avg\<close> is total / count. At count 0 the spec calls it
  failing or undefined and leaves the guard to the caller; the model takes the average
  of no observation to be 0.0, so that reading the property never raises.
  The length of the window is a parameter of the constructor.
\<close>

record smoothed_value =
  window_size :: "nat option"
  deque :: "real list"
  sv_total :: real
  sv_count :: int

definition SmoothedValue :: "nat option \<Rightarrow> smoothed_value" where
  "SmoothedValue ws = \<lparr>window_size = ws, deque = [], sv_total = 0, sv_count = 0\<rparr>"

definition deque_append :: "nat option \<Rightarrow> real list \<Rightarrow> real \<Rightarrow> real list" where
  "deque_append ws d v =
     (case ws of
        None \<Rightarrow> d @ [v]
      | Some n \<Rightarrow> drop (length (d @ [v]) - n) (d @ [v]))"

definition update :: "real \<Rightarrow> int \<Rightarrow> smoothed_value \<Rightarrow> smoothed_value" where
  "update v n sv =
     sv\<lparr>deque := deque_append (window_size sv) (deque sv) v,
        sv_total := sv_total sv + v * real_of_int n,
        sv_count := sv_count sv + n\<rparr>"

definition global_avg :: "smoothed_value \<Rightarrow> real" where
  "global_avg sv =
     (if sv_count sv = 0 then 0 else sv_total sv / real_of_int (sv_count sv))"

record metric_logger =
  m_loss :: smoothed_value
  m_top1 :: smoothed_value
  m_top5 :: smoothed_value

definition MetricLogger :: "nat option \<Rightarrow> metric_logger" where
  "MetricLogger ws =
     \<lparr>m_loss = SmoothedValue ws, m_top1 = SmoothedValue ws, m_top5 = SmoothedValue ws\<rparr>"

definition update_meters :: "real \<Rightarrow> real \<Rightarrow> real \<Rightarrow> int \<Rightarrow> metric_logger \<Rightarrow> metric_logger" where
  "update_meters loss acc1 acc5 batch_size logger =
     logger\<lparr>m_loss := update loss batch_size (m_loss logger),
            m_top1 := update acc1 batch_size (m_top1 logger),
            m_top5 := update acc5 batch_size (m_top5 logger)\<rparr>"

subsection \<open>Events, the world and the arguments of train\<close>

datatype 'b event =
    GradScaler_new
  | Validate_fn bool bool int
      \<comment> \<open>module and num_classes passed, writer passed, \<open>_epoch\<close>\<close>
  | Save_fn
  | Lr_scheduler_step
  | Epoch_fn int
  | Activate_params bool
      \<comment> \<open>True: the optimizer's parameters; False: the empty list\<close>
  | Module_train
  | Module_eval
  | Get_data_fn 'b mode
  | Track_enable
  | Track_disable
  | Pre_conditioner_step
  | Forward_fn bool
  | Loss_fn bool
  | Optimizer_zero_grad
  | Scale_backward
  | Backward
  | Unscale
  | After_loss_fn bool int int
      \<comment> \<open>amp, \<open>_iter\<close>, \<open>total_iter\<close>\<close>
  | Clip_grad_norm real
  | Scaler_step
  | Scaler_update
  | Optimizer_step
  | Ema_update_parameters
  | Ema_n_averaged_fill0
  | Accuracy_fn
  | Empty_cache
  | Add_scalars string string real int
      \<comment> \<open>main tag, tag, value, global step\<close>
  | Prints_best_update real real
  | Prints_rule
  | Module_zero_grad

record ('w, 'b) collaborators =
  ext :: "'b event \<Rightarrow> 'w \<Rightarrow> 'w"
  validate_ret :: "'w \<Rightarrow> real \<times> real"
  loss_float :: "'w \<Rightarrow> real"
  accuracy_ret :: "'w \<Rightarrow> real \<times> real"
  label_size :: "'w \<Rightarrow> nat"

record ('w, 'b) run =
  world :: 'w
  trace :: "'b event list"

text \<open>
  The arguments of \<open>train\<close>. A hook or an optional collaborator is a flag: whether it
  was passed (is callable, is not None). \<open>forward_fn\<close> and \<open>accuracy_fn\<close> stand for
  the function in effect after defaulting. \<open>num_gpus\<close> is \<open>env['num_gpus']\<close>;
  \<open>meter_window\<close> is the window of the SmoothedValue constructor.
\<close>

record 'b train_args =
  epochs :: int
  lr_scheduler :: bool
  lr_warmup_epochs :: int
  model_ema :: bool
  model_ema_steps :: int
  grad_clip :: "real option"
  pre_conditioner :: bool
  start_epoch :: int
  resume :: int
  validate_interval :: int
  save :: bool
  amp :: bool
  loader_train :: "'b list"
  epoch_fn :: bool
  get_data_fn :: bool
  loss_fn :: bool
  after_loss_fn :: bool
  validate_fn :: bool
  save_fn :: bool
  writer :: bool
  main_tag :: string
  tag :: string
  verbose :: bool
  change_train_eval :: bool
  lr_scheduler_freq :: string
  num_gpus :: nat
  meter_window :: "nat option"

definition call :: "('w, 'b) collaborators \<Rightarrow> 'b event \<Rightarrow> ('w, 'b) run \<Rightarrow> ('w, 'b) run" where
  "call c ev s = \<lparr>world = ext c ev (world s), trace = trace s @ [ev]\<rparr>"

definition call_if :: "bool \<Rightarrow> ('w, 'b) collaborators \<Rightarrow> 'b event \<Rightarrow> ('w, 'b) run \<Rightarrow> ('w, 'b) run" where
  "call_if b c ev s = (if b then call c ev s else s)"

subsection \<open>The body of the batch loop\<close>

text \<open>
  Lines 100 to 156. The default \<open>get_data_fn\<close> is \<open>lambda x: x\<close>, which does not take
  the keyword \<open>mode\<close>, and the default \<open>loss_fn\<close> is \<open>nn.CrossEntropyLoss()\<close>, which
  does not take the keyword \<open>_output\<close>: calling either raises TypeError.
  \<open>i % model_ema_steps\<close> raises ZeroDivisionError when the stride is 0.
\<close>

definition backward_step :: "'b train_args \<Rightarrow> ('w, 'b) collaborators \<Rightarrow> bool \<Rightarrow> int \<Rightarrow> int \<Rightarrow>
    ('w, 'b) run \<Rightarrow> ('w, 'b) run" where
  "backward_step a c amp' iter total_iter s =
     (if amp' then
        (let s = call c Scale_backward s;
             s = (if after_loss_fn a
                  then call c (After_loss_fn amp' iter total_iter) (call c Unscale s)
                  else s);
             s = (case grad_clip a of
                    None \<Rightarrow> s
                  | Some g \<Rightarrow> call c (Clip_grad_norm g) (call c Unscale s));
             s = call c Scaler_step s
         in call c Scaler_update s)
      else
        (let s = call c Backward s;
             s = call_if (after_loss_fn a) c (After_loss_fn amp' iter total_iter) s;
             s = (if pre_conditioner a
                  then call c Pre_conditioner_step (call c Track_disable s)
                  else s);
             s = (case grad_clip a of
                    None \<Rightarrow> s
                  | Some g \<Rightarrow> call c (Clip_grad_norm g) s)
         in call c Optimizer_step s))"

definition ema_step :: "'b train_args \<Rightarrow> ('w, 'b) collaborators \<Rightarrow> int \<Rightarrow> nat \<Rightarrow>
    ('w, 'b) run \<Rightarrow> error + ('w, 'b) run" where
  "ema_step a c e i s =
     (if model_ema a then
        (if model_ema_steps a = 0 then Inl ZeroDivisionError
         else if int i mod model_ema_steps a = 0 then
           Inr (call_if (e \<le> lr_warmup_epochs a) c Ema_n_averaged_fill0
                  (call c Ema_update_parameters s))
         else Inr s)
      else Inr s)"

definition train_batch :: "'b train_args \<Rightarrow> ('w, 'b) collaborators \<Rightarrow> bool \<Rightarrow> int \<Rightarrow> int \<Rightarrow>
    nat \<Rightarrow> 'b \<Rightarrow> ('w, 'b) run \<times> metric_logger \<Rightarrow> error + ('w, 'b) run \<times> metric_logger" where
  "train_batch a c amp' total_iter e i data sl =
     (let s = fst sl; logger = snd sl;
          iter = e * int (length (loader_train a)) + int i
      in if \<not> get_data_fn a then Inl TypeError
         else
           (let s = call c (Get_data_fn data Mode_train) s;
                s = call_if (pre_conditioner a \<and> \<not> amp') c Track_enable s;
                s = call c (Forward_fn amp') s
            in if \<not> loss_fn a then Inl TypeError
               else
                 (let s = call c (Loss_fn amp') s;
                      s = call c Optimizer_zero_grad s;
                      s = backward_step a c amp' iter total_iter s
                  in case ema_step a c e i s of
                       Inl err \<Rightarrow> Inl err
                     | Inr s \<Rightarrow>
                         (let s = call_if (lr_scheduler a \<and> lr_scheduler_freq a = ''step'')
                                    c Lr_scheduler_step s;
                              s = call c Accuracy_fn s;
                              acc = accuracy_ret c (world s);
                              batch_size = int (label_size c (world s));
                              logger = update_meters (loss_float c (world s)) (fst acc) (snd acc)
                                         batch_size logger;
                              s = call c Empty_cache s
                          in Inr (s, logger)))))"

fun train_batches :: "'b train_args \<Rightarrow> ('w, 'b) collaborators \<Rightarrow> bool \<Rightarrow> int \<Rightarrow> int \<Rightarrow>
    (nat \<times> 'b) list \<Rightarrow> ('w, 'b) run \<times> metric_logger \<Rightarrow> error + ('w, 'b) run \<times> metric_logger" where
  "train_batches a c amp' total_iter e [] sl = Inr sl"
| "train_batches a c amp' total_iter e ((i, data) # rest) sl =
     (case train_batch a c amp' total_iter e i data sl of
        Inl err \<Rightarrow> Inl err
      | Inr sl' \<Rightarrow> train_batches a c amp' total_iter e rest sl')"

subsection \<open>Periodic validation, one epoch, the whole loop\<close>

text \<open>Lines 174 to 197: validation after epoch \<open>e\<close>, best-accuracy tracking, saving.\<close>

definition checkpoint :: "'b train_args \<Rightarrow> ('w, 'b) collaborators \<Rightarrow> int \<Rightarrow>
    ('w, 'b) run \<times> real option \<Rightarrow> error + ('w, 'b) run \<times> real option" where
  "checkpoint a c e sb =
     (let s = fst sb; best_acc = snd sb
      in if validate_interval a \<noteq> 0 then
           (if e mod validate_interval a = 0 \<or> e = epochs a then
              (let s = call c (Validate_fn True (writer a) (e + start_epoch a)) s;
                   cur_acc = snd (validate_ret c (world s))
               in case best_acc of
                    None \<Rightarrow> Inl UnboundLocalError
                  | Some best \<Rightarrow>
                      (if cur_acc \<ge> best then
                         (let s = call_if (verbose a) c (Prints_best_update cur_acc best) s
                          in if save a then
                               (if save_fn a
                                then Inr (call_if (verbose a) c Prints_rule (call c Save_fn s),
                                          Some cur_acc)
                                else Inl TypeError)
                             else Inr (call_if (verbose a) c Prints_rule s, Some cur_acc))
                       else Inr (call_if (verbose a) c Prints_rule s, Some best)))
            else Inr (s, best_acc))
         else Inr (s, best_acc))"

text \<open>
  Lines 77 to 197: one pass of the epoch loop, \<open>e\<close> being \<open>_epoch\<close> after its increment.
  The header and the progress text of \<open>log_every\<close> and \<open>tqdm\<close> are not modelled; they
  yield the batches of the loader unchanged. The writer is either absent or a
  SummaryWriter, so the assertion of line 167 holds.
\<close>

definition train_epoch :: "'b train_args \<Rightarrow> ('w, 'b) collaborators \<Rightarrow> bool \<Rightarrow> int \<Rightarrow> int \<Rightarrow>
    ('w, 'b) run \<times> real option \<Rightarrow> error + ('w, 'b) run \<times> real option" where
  "train_epoch a c amp' total_iter e sb =
     (let s = fst sb; best_acc = snd sb;
          s = (if epoch_fn a then call c (Epoch_fn e) (call c (Activate_params False) s) else s);
          logger = MetricLogger (meter_window a);
          s = call_if (change_train_eval a) c Module_train s;
          s = call c (Activate_params True) s
      in case train_batches a c amp' total_iter e
                (enumerate 0 (loader_train a)) (s, logger) of
           Inl err \<Rightarrow> Inl err
         | Inr sl \<Rightarrow>
             (let s = fst sl; logger = snd sl;
                  s = call c Optimizer_zero_grad s;
                  s = call_if (lr_scheduler a \<and> lr_scheduler_freq a = ''epochs'')
                        c Lr_scheduler_step s;
                  s = call_if (change_train_eval a) c Module_eval s;
                  s = call c (Activate_params False) s;
                  loss = global_avg (m_loss logger);
                  acc = global_avg (m_top1 logger);
                  s = (if writer a then
                         call c (Add_scalars (''Acc/'' @ main_tag a) (tag a) acc
                                   (e + start_epoch a))
                           (call c (Add_scalars (''Loss/'' @ main_tag a) (tag a) loss
                                      (e + start_epoch a)) s)
                       else s)
              in checkpoint a c e (s, best_acc)))"

fun train_epochs :: "'b train_args \<Rightarrow> ('w, 'b) collaborators \<Rightarrow> bool \<Rightarrow> int \<Rightarrow> int list \<Rightarrow>
    ('w, 'b) run \<times> real option \<Rightarrow> error + ('w, 'b) run \<times> real option" where
  "train_epochs a c amp' total_iter [] sb = Inr sb"
| "train_epochs a c amp' total_iter (ep # rest) sb =
     (case train_epoch a c amp' total_iter (ep + 1) sb of
        Inl err \<Rightarrow> Inl err
      | Inr sb' \<Rightarrow> train_epochs a c amp' total_iter rest sb')"

text \<open>
  Lines 61 to 65: the validation before the first epoch. The call passes neither
  \<open>module\<close> nor \<open>num_classes\<close>; the default \<open>validate\<close> requires both, so with no
  injected \<open>validate_fn\<close> the call raises TypeError.
\<close>

definition initial_validate :: "'b train_args \<Rightarrow> ('w, 'b) collaborators \<Rightarrow> ('w, 'b) run \<Rightarrow>
    error + ('w, 'b) run \<times> real option" where
  "initial_validate a c s =
     (if validate_interval a \<noteq> 0 then
        (if validate_fn a then
           (let s = call c (Validate_fn False False (start_epoch a)) s
            in Inr (s, Some (snd (validate_ret c (world s)))))
         else Inl TypeError)
      else Inr (s, None))"

definition py_range :: "int \<Rightarrow> int \<Rightarrow> int list" where
  "py_range lo hi = [lo..hi - 1]"

definition train :: "'b train_args \<Rightarrow> ('w, 'b) collaborators \<Rightarrow> 'w \<Rightarrow>
    error + ('w, 'b) run \<times> real option" where
  "train a c w =
     (if epochs a \<le> 0 then Inr (\<lparr>world = w, trace = []\<rparr>, None)
      else
        (let amp' = (if num_gpus a = 0 then False else amp a);
             s = call_if amp' c GradScaler_new \<lparr>world = w, trace = []\<rparr>
         in case initial_validate a c s of
              Inl err \<Rightarrow> Inl err
            | Inr sb \<Rightarrow>
                (let s = fst sb; best_acc = snd sb;
                     len_loader_train = int (length (loader_train a));
                     total_iter = (epochs a - resume a) * len_loader_train;
                     s = (if resume a \<noteq> 0 \<and> lr_scheduler a
                          then fold (\<lambda>_. call c Lr_scheduler_step) (py_range 0 (resume a)) s
                          else s)
                 in case train_epochs a c amp' total_iter (py_range (resume a) (epochs a))
                           (s, best_acc) of
                      Inl err \<Rightarrow> Inl err
                    | Inr sb' \<Rightarrow> Inr (call c Module_zero_grad (fst sb'), snd sb'))))"

subsection \<open>validate\<close>

text \<open>
  Lines 201 to 254. The module is its parameters and its train/eval flag. The forward
  pass is a function of the module and the input that returns the output and the module
  it leaves behind; \<open>forward_fn or module.__call__\<close> picks the injected function or
  the module's own call. The loader is the list of its batches. The progress text of
  \<open>log_every\<close> is not modelled. As in \<open>train\<close>, the defaults of \<open>get_data_fn\<close> and
  \<open>loss_fn\<close> raise TypeError when called with the keywords \<open>mode\<close> and \<open>_output\<close>.
\<close>

record 'p module =
  params :: 'p
  training :: bool

record ('b, 'x, 'l, 'o, 'p) validate_args =
  v_num_classes :: int
  v_loader :: "'b list"
  v_get_data_fn :: "('b \<Rightarrow> mode \<Rightarrow> 'x \<times> 'l) option"
  v_forward_fn :: "('p module \<Rightarrow> 'x \<Rightarrow> 'o \<times> 'p module) option"
  module_call :: "'p module \<Rightarrow> 'x \<Rightarrow> 'o \<times> 'p module"
  v_loss_fn :: "('x \<Rightarrow> 'l \<Rightarrow> 'o \<Rightarrow> real) option"
  v_accuracy_fn :: "'o \<Rightarrow> 'l \<Rightarrow> int \<Rightarrow> real \<times> real"
  label_size0 :: "'l \<Rightarrow> nat"
  v_writer :: bool
  v_main_tag :: string
  v_tag :: string
  v_epoch :: "int option"
  v_meter_window :: "nat option"

definition module_eval :: "'p module \<Rightarrow> 'p module" where
  "module_eval m = m\<lparr>training := False\<rparr>"

definition forward :: "('b, 'x, 'l, 'o, 'p) validate_args \<Rightarrow> 'p module \<Rightarrow> 'x \<Rightarrow> 'o \<times> 'p module" where
  "forward a = (case v_forward_fn a of None \<Rightarrow> module_call a | Some f \<Rightarrow> f)"

definition validate_batch :: "('b, 'x, 'l, 'o, 'p) validate_args \<Rightarrow> 'b \<Rightarrow>
    'p module \<times> metric_logger \<Rightarrow> error + 'p module \<times> metric_logger" where
  "validate_batch a data ml =
     (case v_get_data_fn a of
        None \<Rightarrow> Inl TypeError
      | Some g \<Rightarrow>
          (let inp = fst (g data Mode_valid); lbl = snd (g data Mode_valid);
               fw = forward a (fst ml) inp;
               outp = fst fw
           in case v_loss_fn a of
                None \<Rightarrow> Inl TypeError
              | Some lf \<Rightarrow>
                  (let loss = lf inp lbl outp;
                       acc = v_accuracy_fn a outp lbl (v_num_classes a);
                       batch_size = int (label_size0 a lbl)
                   in Inr (snd fw, update_meters loss (fst acc) (snd acc) batch_size (snd ml)))))"

fun validate_batches :: "('b, 'x, 'l, 'o, 'p) validate_args \<Rightarrow> 'b list \<Rightarrow>
    'p module \<times> metric_logger \<Rightarrow> error + 'p module \<times> metric_logger" where
  "validate_batches a [] ml = Inr ml"
| "validate_batches a (data # rest) ml =
     (case validate_batch a data ml of
        Inl err \<Rightarrow> Inl err
      | Inr ml' \<Rightarrow> validate_batches a rest ml')"

definition validate :: "('b, 'x, 'l, 'o, 'p) validate_args \<Rightarrow> 'p module \<Rightarrow>
    error + (real \<times> real) \<times> 'p module \<times> (string \<times> string \<times> real \<times> int) list" where
  "validate a m =
     (case validate_batches a (v_loader a) (module_eval m, MetricLogger (v_meter_window a)) of
        Inl err \<Rightarrow> Inl err
      | Inr ml \<Rightarrow>
          (let loss = global_avg (m_loss (snd ml));
               acc = global_avg (m_top1 (snd ml))
           in Inr ((loss, acc), fst ml,
                   (case v_epoch a of
                      None \<Rightarrow> []
                    | Some ep \<Rightarrow>
                        if v_writer a \<and> v_main_tag a \<noteq> [] then
                          [(''Loss/'' @ v_main_tag a, v_tag a, loss, ep),
                           (''Acc/'' @ v_main_tag a, v_tag a, acc, ep)]
                        else []))))"

text \<open>
  What the batches of a pass show, in order: the loss, the top-1 accuracy and the size
  of each batch, the module being threaded through the forward passes.
\<close>

fun batch_stats :: "('b, 'x, 'l, 'o, 'p) validate_args \<Rightarrow> ('b \<Rightarrow> mode \<Rightarrow> 'x \<times> 'l) \<Rightarrow>
    ('x \<Rightarrow> 'l \<Rightarrow> 'o \<Rightarrow> real) \<Rightarrow> 'b list \<Rightarrow> 'p module \<Rightarrow> (real \<times> real \<times> int) list" where
  "batch_stats a g lf [] m = []"
| "batch_stats a g lf (data # rest) m =
     (let inp = fst (g data Mode_valid); lbl = snd (g data Mode_valid);
          fw = forward a m inp
      in (lf inp lbl (fst fw), fst (v_accuracy_fn a (fst fw) lbl (v_num_classes a)),
          int (label_size0 a lbl)) # batch_stats a g lf rest (snd fw))"

definition total_samples :: "(real \<times> real \<times> int) list \<Rightarrow> int" where
  "total_samples st = (\<Sum>x\<leftarrow>st. snd (snd x))"

definition weighted_loss :: "(real \<times> real \<times> int) list \<Rightarrow> real" where
  "weighted_loss st =
     (if total_samples st = 0 then 0
      else (\<Sum>x\<leftarrow>st. fst x * real_of_int (snd (snd x))) / real_of_int (total_samples st))"

definition weighted_top1 :: "(real \<times> real \<times> int) list \<Rightarrow> real" where
  "weighted_top1 st =
     (if total_samples st = 0 then 0
      else (\<Sum>x\<leftarrow>st. fst (snd x) * real_of_int (snd (snd x)))
           / real_of_int (total_samples st))"

subsection \<open>A concrete setting for running the loops\<close>

text \<open>
  A world that only counts the calls of \<open>validate_fn\<close>; the call number \<open>k\<close> (from 0,
  the validation before the first epoch) returns the accuracy \<open>accs ! k\<close>. Every batch
  has 8 samples, loss 1 and accuracies 50 and 90.
\<close>

definition acc_at :: "real list \<Rightarrow> nat \<Rightarrow> real" where
  "acc_at accs k = (if k < length accs then accs ! k else 0)"

definition counting_ext :: "nat event \<Rightarrow> nat \<Rightarrow> nat" where
  "counting_ext ev w = (case ev of Validate_fn _ _ _ \<Rightarrow> w + 1 | _ \<Rightarrow> w)"

definition counting_world :: "real list \<Rightarrow> (nat, nat) collaborators" where
  "counting_world accs =
     \<lparr>ext = counting_ext,
      validate_ret = (\<lambda>w. (0, acc_at accs (w - 1))),
      loss_float = (\<lambda>w. 1),
      accuracy_ret = (\<lambda>w. (50, 90)),
      label_size = (\<lambda>w. 8)\<rparr>"

definition demo_args :: "nat train_args" where
  "demo_args =
     \<lparr>epochs = 4, lr_scheduler = True, lr_warmup_epochs = 1,
      model_ema = True, model_ema_steps = 2, grad_clip = None, pre_conditioner = False,
      start_epoch = 0, resume = 0, validate_interval = 1, save = True, amp = False,
      loader_train = [0], epoch_fn = False, get_data_fn = True, loss_fn = True,
      after_loss_fn = True, validate_fn = True, save_fn = True, writer = False,
      main_tag = ''train'', tag = [], verbose = False, change_train_eval = False,
      lr_scheduler_freq = ''epochs'', num_gpus = 0, meter_window = None\<rparr>"

definition single_epoch_args :: "nat train_args" where
  "single_epoch_args = demo_args\<lparr>epochs := 1\<rparr>"

subsection \<open>The calls of a run, written out\<close>

text \<open>
  The calls a batch, an epoch and a whole run make when nothing raises, apart from
  those that depend on values read back from the world (saving, the metrics sink, the
  progress text). They serve to state what a trace contains.
\<close>

definition result_dependent :: "'b event \<Rightarrow> bool" where
  "result_dependent ev =
     (case ev of
        Save_fn \<Rightarrow> True
      | Add_scalars _ _ _ _ \<Rightarrow> True
      | Prints_best_update _ _ \<Rightarrow> True
      | Prints_rule \<Rightarrow> True
      | _ \<Rightarrow> False)"

definition backward_events :: "'b train_args \<Rightarrow> bool \<Rightarrow> int \<Rightarrow> int \<Rightarrow> 'b event list" where
  "backward_events a amp' iter total_iter =
     (if amp' then
        [Scale_backward]
        @ (if after_loss_fn a then [Unscale, After_loss_fn amp' iter total_iter] else [])
        @ (case grad_clip a of None \<Rightarrow> [] | Some g \<Rightarrow> [Unscale, Clip_grad_norm g])
        @ [Scaler_step, Scaler_update]
      else
        [Backward]
        @ (if after_loss_fn a then [After_loss_fn amp' iter total_iter] else [])
        @ (if pre_conditioner a then [Track_disable, Pre_conditioner_step] else [])
        @ (case grad_clip a of None \<Rightarrow> [] | Some g \<Rightarrow> [Clip_grad_norm g])
        @ [Optimizer_step])"

definition ema_events :: "'b train_args \<Rightarrow> int \<Rightarrow> nat \<Rightarrow> 'b event list" where
  "ema_events a e i =
     (if model_ema a \<and> int i mod model_ema_steps a = 0
      then Ema_update_parameters # (if e \<le> lr_warmup_epochs a then [Ema_n_averaged_fill0] else [])
      else [])"

definition batch_events :: "'b train_args \<Rightarrow> bool \<Rightarrow> int \<Rightarrow> int \<Rightarrow> nat \<times> 'b \<Rightarrow> 'b event list" where
  "batch_events a amp' total_iter e ib =
     [Get_data_fn (snd ib) Mode_train]
     @ (if pre_conditioner a \<and> \<not> amp' then [Track_enable] else [])
     @ [Forward_fn amp', Loss_fn amp', Optimizer_zero_grad]
     @ backward_events a amp' (e * int (length (loader_train a)) + int (fst ib)) total_iter
     @ ema_events a e (fst ib)
     @ (if lr_scheduler a \<and> lr_scheduler_freq a = ''step'' then [Lr_scheduler_step] else [])
     @ [Accuracy_fn, Empty_cache]"

text \<open>The test of line 174 and 175: validation is due after epoch \<open>e\<close>.\<close>

definition validation_due :: "'b train_args \<Rightarrow> int \<Rightarrow> bool" where
  "validation_due a e =
     (validate_interval a \<noteq> 0 \<and> (e mod validate_interval a = 0 \<or> e = epochs a))"

definition epoch_events :: "'b train_args \<Rightarrow> bool \<Rightarrow> int \<Rightarrow> int \<Rightarrow> 'b event list" where
  "epoch_events a amp' total_iter e =
     (if epoch_fn a then [Activate_params False, Epoch_fn e] else [])
     @ (if change_train_eval a then [Module_train] else [])
     @ [Activate_params True]
     @ concat (map (batch_events a amp' total_iter e) (enumerate 0 (loader_train a)))
     @ [Optimizer_zero_grad]
     @ (if lr_scheduler a \<and> lr_scheduler_freq a = ''epochs'' then [Lr_scheduler_step] else [])
     @ (if change_train_eval a then [Module_eval] else [])
     @ [Activate_params False]
     @ (if validation_due a e then [Validate_fn True (writer a) (e + start_epoch a)] else [])"

text \<open>
  The value of \<open>amp\<close> after lines 57 and 58, and \<open>total_iter\<close> of line 71.
\<close>

definition effective_amp :: "'b train_args \<Rightarrow> bool" where
  "effective_amp a = (if num_gpus a = 0 then False else amp a)"

definition total_iter_of :: "'b train_args \<Rightarrow> int" where
  "total_iter_of a = (epochs a - resume a) * int (length (loader_train a))"

definition train_events :: "'b train_args \<Rightarrow> 'b event list" where
  "train_events a =
     (if effective_amp a then [GradScaler_new] else [])
     @ (if validate_interval a \<noteq> 0 then [Validate_fn False False (start_epoch a)] else [])
     @ (if resume a \<noteq> 0 \<and> lr_scheduler a
        then replicate (nat (resume a)) Lr_scheduler_step else [])
     @ concat (map (\<lambda>ep. epoch_events a (effective_amp a) (total_iter_of a) (ep + 1))
                 (py_range (resume a) (epochs a)))
     @ [Module_zero_grad]"

text \<open>
  A call of train in which none of the loop's own statements raises: \<open>get_data_fn\<close>
  and \<open>loss_fn\<close> are injected, the EMA stride is not 0, \<open>save_fn\<close> is injected when
  \<open>save\<close> is set, and \<open>validate_fn\<close> is injected when validation is on.
\<close>

definition runs_through :: "'b train_args \<Rightarrow> bool" where
  "runs_through a =
     (get_data_fn a \<and> loss_fn a \<and> (model_ema a \<longrightarrow> model_ema_steps a \<noteq> 0)
      \<and> (save a \<longrightarrow> save_fn a) \<and> (validate_interval a \<noteq> 0 \<longrightarrow> validate_fn a))"

text \<open>The trace without the calls that depend on values read back from the world.\<close>

abbreviation skeleton :: "'b event list \<Rightarrow> 'b event list" where
  "skeleton \<equiv> filter (\<lambda>ev. \<not> result_dependent ev)"

text \<open>Views of a trace: the calls a property is about.\<close>

definition is_after_loss :: "'b event \<Rightarrow> bool" where
  "is_after_loss ev = (case ev of After_loss_fn _ _ _ \<Rightarrow> True | _ \<Rightarrow> False)"

definition ema_view :: "'b event \<Rightarrow> bool" where
  "ema_view ev =
     (case ev of
        Get_data_fn _ _ \<Rightarrow> True
      | Ema_update_parameters \<Rightarrow> True
      | Ema_n_averaged_fill0 \<Rightarrow> True
      | _ \<Rightarrow> False)"

definition schedule_view :: "'b event \<Rightarrow> bool" where
  "schedule_view ev =
     (case ev of
        Lr_scheduler_step \<Rightarrow> True
      | Epoch_fn _ \<Rightarrow> True
      | Activate_params b \<Rightarrow> b
      | _ \<Rightarrow> False)"

definition validation_view :: "'b event \<Rightarrow> bool" where
  "validation_view ev =
     (case ev of
        Validate_fn _ _ _ \<Rightarrow> True
      | Activate_params b \<Rightarrow> b
      | _ \<Rightarrow> False)"

definition precision_view :: "'b event \<Rightarrow> bool" where
  "precision_view ev =
     (case ev of
        GradScaler_new \<Rightarrow> True
      | Forward_fn _ \<Rightarrow> True
      | Loss_fn _ \<Rightarrow> True
      | Scale_backward \<Rightarrow> True
      | Backward \<Rightarrow> True
      | Unscale \<Rightarrow> True
      | Scaler_step \<Rightarrow> True
      | Scaler_update \<Rightarrow> True
      | Optimizer_step \<Rightarrow> True
      | _ \<Rightarrow> False)"

definition checkpoint_view :: "'b event \<Rightarrow> bool" where
  "checkpoint_view ev =
     (case ev of
        Validate_fn _ _ _ \<Rightarrow> True
      | Save_fn \<Rightarrow> True
      | _ \<Rightarrow> False)"

text \<open>
  A concrete setting for validate: a batch is its input and its number of samples; the
  module's forward pass adds the parameter to the input in eval mode, and in train mode
  returns the input and changes the parameter; the loss is the output.
\<close>

definition demo_module :: "int module" where
  "demo_module = \<lparr>params = 0, training = True\<rparr>"

definition demo_call :: "int module \<Rightarrow> real \<Rightarrow> real \<times> int module" where
  "demo_call m x =
     (if training m then (x, m\<lparr>params := params m + 1\<rparr>)
      else (x + real_of_int (params m), m))"

definition demo_validate_args :: "(real \<times> nat, real, nat, real, int) validate_args" where
  "demo_validate_args =
     \<lparr>v_num_classes = 10, v_loader = [(1, 2), (4, 6)],
      v_get_data_fn = Some (\<lambda>b md. b), v_forward_fn = None, module_call = demo_call,
      v_loss_fn = Some (\<lambda>x l outp. outp),
      v_accuracy_fn = (\<lambda>outp l nc. (2 * outp, 100)),
      label_size0 = (\<lambda>l. l),
      v_writer = False, v_main_tag = ''valid'', v_tag = [], v_epoch = None,
      v_meter_window = Some 1\<rparr>"

subsection \<open>Accuracies read back and the best accuracy so far\<close>

text \<open>
  The accuracies \<open>validate_fn\<close> returns along a trace: the trace is replayed from the
  world the run started in, and after each validation call the accuracy is read back
  from the world that call leaves.
\<close>

fun returned_accuracies :: "('w, 'b) collaborators \<Rightarrow> 'w \<Rightarrow> 'b event list \<Rightarrow> real list" where
  "returned_accuracies c w [] = []"
| "returned_accuracies c w (ev # evs) =
     (case ev of
        Validate_fn _ _ _ \<Rightarrow> [snd (validate_ret c (ext c ev w))]
      | _ \<Rightarrow> [])
     @ returned_accuracies c (ext c ev w) evs"

text \<open>
  The tracking rule in the words of the spec: an accuracy greater than or equal to the
  best so far becomes the best so far, and then, when saving is on, the save function is
  called right after the validation call.
\<close>

fun best_so_far :: "real \<Rightarrow> real list \<Rightarrow> real" where
  "best_so_far best [] = best"
| "best_so_far best (cur # rest) = best_so_far (if best \<le> cur then cur else best) rest"

fun checkpoint_calls :: "bool \<Rightarrow> real \<Rightarrow> ('b event \<times> real) list \<Rightarrow> 'b event list" where
  "checkpoint_calls sv best [] = []"
| "checkpoint_calls sv best ((ev, cur) # rest) =
     ev # (if best \<le> cur \<and> sv then [Save_fn] else [])
     @ checkpoint_calls sv (if best \<le> cur then cur else best) rest"

text \<open>The world of a state is the one its trace leads to from the world \<open>w\<close>.\<close>

definition linked :: "('w, 'b) collaborators \<Rightarrow> 'w \<Rightarrow> ('w, 'b) run \<Rightarrow> bool" where
  "linked c w s = (world s = fold (ext c) (trace s) w)"

section \<open>Properties\<close>

subsection \<open>Calls and traces\<close>

lemma trace_call: "trace (call c ev s) = trace s @ [ev]"
  by (simp add: call_def)

lemma trace_call_if: "trace (call_if b c ev s) = trace s @ (if b then [ev] else [])"
  by (simp add: call_if_def trace_call)

lemma trace_fold_call:
  "trace (fold (\<lambda>_. call c ev) xs s) = trace s @ replicate (length xs) ev"
  by (induction xs arbitrary: s) (simp_all add: trace_call replicate_append_same)

lemma trace_backward_step:
  "trace (backward_step a c amp' iter ti s) = trace s @ backward_events a amp' iter ti"
  by (simp add: backward_step_def backward_events_def Let_def trace_call trace_call_if
      split: option.split)

lemma trace_ema_step:
  "ema_step a c e i s = Inr s' \<Longrightarrow> trace s' = trace s @ ema_events a e i"
  by (auto simp: ema_step_def ema_events_def trace_call trace_call_if split: if_splits)

lemma trace_train_batch:
  "train_batch a c amp' ti e i data sl = Inr sl' \<Longrightarrow>
   trace (fst sl') = trace (fst sl) @ batch_events a amp' ti e (i, data)"
  by (auto simp: train_batch_def batch_events_def Let_def trace_call trace_call_if
      trace_backward_step split: if_splits sum.splits dest!: trace_ema_step)

lemma trace_train_batches:
  "train_batches a c amp' ti e ibs sl = Inr sl' \<Longrightarrow>
   trace (fst sl') = trace (fst sl) @ concat (map (batch_events a amp' ti e) ibs)"
proof (induction ibs arbitrary: sl)
  case Nil
  then show ?case by simp
next
  case (Cons ib ibs)
  obtain i data where ib: "ib = (i, data)" by (cases ib)
  from Cons.prems ib obtain sl1 where
    b: "train_batch a c amp' ti e i data sl = Inr sl1" and
    r: "train_batches a c amp' ti e ibs sl1 = Inr sl'"
    by (auto split: sum.splits)
  from trace_train_batch [OF b] Cons.IH [OF r] ib show ?case by simp
qed

lemma checkpoint_skeleton:
  "checkpoint a c e sb = Inr sb' \<Longrightarrow>
   filter (\<lambda>ev. \<not> result_dependent ev) (trace (fst sb')) =
   filter (\<lambda>ev. \<not> result_dependent ev) (trace (fst sb))
   @ (if validation_due a e then [Validate_fn True (writer a) (e + start_epoch a)] else [])"
  by (auto simp: checkpoint_def validation_due_def Let_def trace_call trace_call_if
      result_dependent_def split: if_splits option.splits)

lemma skeleton_batch_events [simp]:
  "skeleton (batch_events a amp' ti e ib) = batch_events a amp' ti e ib"
  by (simp add: batch_events_def backward_events_def ema_events_def result_dependent_def
      split: option.split)

lemma skeleton_batches [simp]:
  "skeleton (concat (map (batch_events a amp' ti e) ibs)) =
   concat (map (batch_events a amp' ti e) ibs)"
  by (induction ibs) simp_all

lemma train_epoch_skeleton:
  assumes "train_epoch a c amp' ti e sb = Inr sb'"
  shows "skeleton (trace (fst sb')) = skeleton (trace (fst sb)) @ epoch_events a amp' ti e"
proof -
  let ?s0 = "call c (Activate_params True) (call_if (change_train_eval a) c Module_train
      (if epoch_fn a then call c (Epoch_fn e) (call c (Activate_params False) (fst sb))
       else fst sb))"
  from assms obtain sl where
    b: "train_batches a c amp' ti e (enumerate 0 (loader_train a))
          (?s0, MetricLogger (meter_window a)) = Inr sl"
    by (auto simp: train_epoch_def Let_def split: sum.splits)
  from assms b obtain s2 where
    k: "checkpoint a c e (s2, snd sb) = Inr sb'" and
    s2: "skeleton (trace s2) = skeleton (trace (fst sl)) @ [Optimizer_zero_grad]
       @ (if lr_scheduler a \<and> lr_scheduler_freq a = ''epochs'' then [Lr_scheduler_step] else [])
       @ (if change_train_eval a then [Module_eval] else [])
       @ [Activate_params False]"
    by (auto simp: train_epoch_def Let_def trace_call trace_call_if result_dependent_def
        split: sum.splits if_splits)
  have s0: "skeleton (trace ?s0) = skeleton (trace (fst sb))
       @ (if epoch_fn a then [Activate_params False, Epoch_fn e] else [])
       @ (if change_train_eval a then [Module_train] else [])
       @ [Activate_params True]"
    by (simp add: trace_call trace_call_if result_dependent_def)
  from trace_train_batches [OF b]
  have "skeleton (trace (fst sl)) = skeleton (trace ?s0)
       @ concat (map (batch_events a amp' ti e) (enumerate 0 (loader_train a)))"
    by simp
  with s0 s2 checkpoint_skeleton [OF k] show ?thesis
    by (simp add: epoch_events_def)
qed

lemma train_epochs_skeleton:
  "train_epochs a c amp' ti es sb = Inr sb' \<Longrightarrow>
   skeleton (trace (fst sb')) =
   skeleton (trace (fst sb)) @ concat (map (\<lambda>ep. epoch_events a amp' ti (ep + 1)) es)"
proof (induction es arbitrary: sb)
  case Nil
  then show ?case by simp
next
  case (Cons ep es)
  from Cons.prems obtain sb1 where
    h: "train_epoch a c amp' ti (ep + 1) sb = Inr sb1" and
    r: "train_epochs a c amp' ti es sb1 = Inr sb'"
    by (auto split: sum.splits)
  from train_epoch_skeleton [OF h] Cons.IH [OF r] show ?case by simp
qed

lemma length_py_range: "length (py_range lo hi) = nat (hi - lo)"
  by (simp add: py_range_def)

lemma train_skeleton:
  assumes "train a c w = Inr sb" and "0 < epochs a"
  shows "skeleton (trace (fst sb)) = train_events a"
proof -
  let ?s0 = "call_if (effective_amp a) c GradScaler_new \<lparr>world = w, trace = []\<rparr>"
  from assms obtain sb0 where
    i: "initial_validate a c ?s0 = Inr sb0"
    by (auto simp: train_def effective_amp_def Let_def split: sum.splits if_splits)
  let ?s1 = "if resume a \<noteq> 0 \<and> lr_scheduler a
             then fold (\<lambda>_. call c Lr_scheduler_step) (py_range 0 (resume a)) (fst sb0)
             else fst sb0"
  from assms i obtain sb1 where
    l: "train_epochs a c (effective_amp a) (total_iter_of a) (py_range (resume a) (epochs a))
          (?s1, snd sb0) = Inr sb1" and
    f: "sb = (call c Module_zero_grad (fst sb1), snd sb1)"
    by (auto simp: train_def effective_amp_def total_iter_of_def Let_def
        split: sum.splits if_splits)
  from i have t0: "skeleton (trace (fst sb0)) =
      (if effective_amp a then [GradScaler_new] else [])
      @ (if validate_interval a \<noteq> 0 then [Validate_fn False False (start_epoch a)] else [])"
    by (auto simp: initial_validate_def Let_def trace_call trace_call_if result_dependent_def
        split: if_splits)
  have t1: "skeleton (trace ?s1) = skeleton (trace (fst sb0))
      @ (if resume a \<noteq> 0 \<and> lr_scheduler a
         then replicate (nat (resume a)) Lr_scheduler_step else [])"
    by (simp add: trace_fold_call length_py_range result_dependent_def)
  from train_epochs_skeleton [OF l] t0 t1 f show ?thesis
    by (simp add: train_events_def trace_call result_dependent_def)
qed

subsection \<open>Runs that go through\<close>

lemma ema_step_returns:
  "model_ema a \<longrightarrow> model_ema_steps a \<noteq> 0 \<Longrightarrow> \<exists>s'. ema_step a c e i s = Inr s'"
  by (simp add: ema_step_def)

lemma train_batch_returns:
  assumes "runs_through a"
  shows "\<exists>sl'. train_batch a c amp' ti e i data sl = Inr sl'"
proof -
  from assms have g: "get_data_fn a" and l: "loss_fn a"
    and m: "model_ema a \<longrightarrow> model_ema_steps a \<noteq> 0"
    by (simp_all add: runs_through_def)
  let ?s = "backward_step a c amp' (e * int (length (loader_train a)) + int i) ti
      (call c Optimizer_zero_grad (call c (Loss_fn amp') (call c (Forward_fn amp')
        (call_if (pre_conditioner a \<and> \<not> amp') c Track_enable
          (call c (Get_data_fn data Mode_train) (fst sl))))))"
  from ema_step_returns [OF m] obtain s' where e: "ema_step a c e i ?s = Inr s'"
    by blast
  with g l show ?thesis
    by (simp add: train_batch_def Let_def)
qed

lemma train_batches_returns:
  assumes "runs_through a"
  shows "\<exists>sl'. train_batches a c amp' ti e ibs sl = Inr sl'"
proof (induction ibs arbitrary: sl)
  case Nil
  then show ?case by simp
next
  case (Cons ib ibs)
  obtain i data where ib: "ib = (i, data)" by (cases ib)
  from train_batch_returns [OF assms, of c amp' ti e i data sl] obtain sl1 where
    b: "train_batch a c amp' ti e i data sl = Inr sl1"
    by blast
  from Cons.IH [of sl1] obtain sl' where
    r: "train_batches a c amp' ti e ibs sl1 = Inr sl'"
    by blast
  from b r ib show ?case by simp
qed

lemma checkpoint_returns:
  assumes "runs_through a" and "validate_interval a \<noteq> 0 \<longrightarrow> snd sb \<noteq> None"
  shows "\<exists>sb'. checkpoint a c e sb = Inr sb' \<and> (validate_interval a \<noteq> 0 \<longrightarrow> snd sb' \<noteq> None)"
  using assms by (cases sb) (auto simp: checkpoint_def runs_through_def Let_def)

lemma train_epoch_returns:
  assumes "runs_through a" and "validate_interval a \<noteq> 0 \<longrightarrow> snd sb \<noteq> None"
  shows "\<exists>sb'. train_epoch a c amp' ti e sb = Inr sb'
           \<and> (validate_interval a \<noteq> 0 \<longrightarrow> snd sb' \<noteq> None)"
proof -
  let ?s0 = "call c (Activate_params True) (call_if (change_train_eval a) c Module_train
      (if epoch_fn a then call c (Epoch_fn e) (call c (Activate_params False) (fst sb))
       else fst sb))"
  from train_batches_returns [OF assms(1), of c amp' ti e "enumerate 0 (loader_train a)"
      "(?s0, MetricLogger (meter_window a))"]
  obtain sl where
    b: "train_batches a c amp' ti e (enumerate 0 (loader_train a))
          (?s0, MetricLogger (meter_window a)) = Inr sl"
    by blast
  have k: "\<exists>sb'. checkpoint a c e (s2, snd sb) = Inr sb'
      \<and> (validate_interval a \<noteq> 0 \<longrightarrow> snd sb' \<noteq> None)" for s2
    using checkpoint_returns [OF assms(1), of "(s2, snd sb)" c e] assms(2) by simp
  show ?thesis
    using b k by (simp add: train_epoch_def Let_def)
qed

lemma train_epochs_returns:
  assumes "runs_through a"
  shows "validate_interval a \<noteq> 0 \<longrightarrow> snd sb \<noteq> None \<Longrightarrow>
         \<exists>sb'. train_epochs a c amp' ti es sb = Inr sb'"
proof (induction es arbitrary: sb)
  case Nil
  then show ?case by simp
next
  case (Cons ep es)
  from train_epoch_returns [OF assms Cons.prems, of c amp' ti "ep + 1"] obtain sb1 where
    h: "train_epoch a c amp' ti (ep + 1) sb = Inr sb1" and
    n: "validate_interval a \<noteq> 0 \<longrightarrow> snd sb1 \<noteq> None"
    by blast
  from Cons.IH [OF n] h show ?case by simp
qed

lemma train_returns:
  assumes "runs_through a"
  shows "\<exists>sb. train a c w = Inr sb"
proof (cases "epochs a \<le> 0")
  case True
  then show ?thesis by (simp add: train_def)
next
  case False
  let ?s0 = "call_if (effective_amp a) c GradScaler_new \<lparr>world = w, trace = []\<rparr>"
  from assms have "\<exists>sb0. initial_validate a c ?s0 = Inr sb0
      \<and> (validate_interval a \<noteq> 0 \<longrightarrow> snd sb0 \<noteq> None)"
    by (simp add: initial_validate_def runs_through_def Let_def)
  then obtain sb0 where
    i: "initial_validate a c ?s0 = Inr sb0" and
    n: "validate_interval a \<noteq> 0 \<longrightarrow> snd sb0 \<noteq> None"
    by blast
  let ?s1 = "if resume a \<noteq> 0 \<and> lr_scheduler a
             then fold (\<lambda>_. call c Lr_scheduler_step) (py_range 0 (resume a)) (fst sb0)
             else fst sb0"
  from train_epochs_returns [OF assms, of "(?s1, snd sb0)" c "effective_amp a" "total_iter_of a"
      "py_range (resume a) (epochs a)"] n
  obtain sb1 where
    "train_epochs a c (effective_amp a) (total_iter_of a) (py_range (resume a) (epochs a))
       (?s1, snd sb0) = Inr sb1"
    by auto
  with False i show ?thesis
    by (simp add: train_def effective_amp_def total_iter_of_def Let_def)
qed

subsection \<open>Reading a trace through a view\<close>

lemma filter_skeleton:
  "(\<And>ev. P ev \<Longrightarrow> \<not> result_dependent ev) \<Longrightarrow> filter P xs = filter P (skeleton xs)"
  by (induction xs) auto

lemma map_succ_upto: "map (\<lambda>x. f (x + 1)) [lo..hi - 1] = map f [lo + 1..hi]"
proof (induction lo "hi - 1" arbitrary: hi rule: upto.induct)
  case (1 i)
  show ?case
  proof (cases "i \<le> hi - 1")
    case True
    from True 1 [OF True, of hi] show ?thesis
      by (simp add: upto_rec1 [of i "hi - 1"] upto_rec1 [of "i + 1" hi])
  next
    case False
    then show ?thesis by simp
  qed
qed

lemma map_py_range: "map (\<lambda>ep. f (ep + 1)) (py_range lo hi) = map f [lo + 1..hi]"
  by (simp add: py_range_def map_succ_upto)

lemma filter_train_events:
  "filter P (train_events a) =
     filter P ((if effective_amp a then [GradScaler_new] else [])
       @ (if validate_interval a \<noteq> 0 then [Validate_fn False False (start_epoch a)] else [])
       @ (if resume a \<noteq> 0 \<and> lr_scheduler a
          then replicate (nat (resume a)) Lr_scheduler_step else []))
     @ concat (map (\<lambda>e. filter P (epoch_events a (effective_amp a) (total_iter_of a) e))
                 [resume a + 1..epochs a])
     @ filter P [Module_zero_grad]"
proof -
  have "map (\<lambda>ep. filter P (epoch_events a (effective_amp a) (total_iter_of a) (ep + 1)))
          (py_range (resume a) (epochs a)) =
        map (\<lambda>e. filter P (epoch_events a (effective_amp a) (total_iter_of a) e))
          [resume a + 1..epochs a]"
    by (rule map_py_range)
  then show ?thesis
    by (simp add: train_events_def filter_concat comp_def)
qed

lemma filter_epoch_events:
  "filter P (epoch_events a amp' ti e) =
     filter P ((if epoch_fn a then [Activate_params False, Epoch_fn e] else [])
       @ (if change_train_eval a then [Module_train] else [])
       @ [Activate_params True])
     @ concat (map (\<lambda>ib. filter P (batch_events a amp' ti e ib)) (enumerate 0 (loader_train a)))
     @ filter P ([Optimizer_zero_grad]
       @ (if lr_scheduler a \<and> lr_scheduler_freq a = ''epochs'' then [Lr_scheduler_step] else [])
       @ (if change_train_eval a then [Module_eval] else [])
       @ [Activate_params False]
       @ (if validation_due a e then [Validate_fn True (writer a) (e + start_epoch a)] else []))"
  by (simp add: epoch_events_def filter_concat comp_def)

lemma train_projection:
  assumes "runs_through a" and "0 < epochs a" and "\<And>ev. P ev \<Longrightarrow> \<not> result_dependent ev"
  shows "\<exists>s b. train a c w = Inr (s, b) \<and> filter P (trace s) = filter P (train_events a)"
proof -
  from train_returns [OF assms(1), where c = c and w = w] obtain sb where
    r: "train a c w = Inr sb" by blast
  from train_skeleton [OF r assms(2)] filter_skeleton [of P "trace (fst sb)"] assms(3)
  have "filter P (trace (fst sb)) = filter P (train_events a)" by simp
  with r show ?thesis by (cases sb) auto
qed

lemma map_enumerate_index:
  "map (\<lambda>ib. f (fst ib)) (enumerate n xs) = map f [n..<n + length xs]"
  by (induction xs arbitrary: n) (simp_all add: upt_conv_Cons del: upt.simps)

lemma after_loss_batch:
  "after_loss_fn a \<Longrightarrow>
   filter is_after_loss (batch_events a amp' ti e ib) =
   [After_loss_fn amp' (e * int (length (loader_train a)) + int (fst ib)) ti]"
  by (simp add: batch_events_def backward_events_def ema_events_def is_after_loss_def
      split: option.split)

lemma after_loss_epoch:
  "after_loss_fn a \<Longrightarrow>
   filter is_after_loss (epoch_events a amp' ti e) =
   map (\<lambda>i. After_loss_fn amp' (e * int (length (loader_train a)) + int i) ti)
     [0..<length (loader_train a)]"
proof -
  assume h: "after_loss_fn a"
  have "concat (map (\<lambda>ib. [After_loss_fn amp' (e * int (length (loader_train a)) + int (fst ib)) ti])
          (enumerate 0 (loader_train a))) =
        map (\<lambda>i. After_loss_fn amp' (e * int (length (loader_train a)) + int i) ti)
          [0..<length (loader_train a)]"
    using map_enumerate_index
      [of "\<lambda>i. After_loss_fn amp' (e * int (length (loader_train a)) + int i) ti" 0
        "loader_train a"]
    by simp
  with h show ?thesis
    by (simp add: filter_epoch_events is_after_loss_def [of "Activate_params _"]
        is_after_loss_def [of "Epoch_fn _"] is_after_loss_def [of Module_train]
        is_after_loss_def [of Module_eval] is_after_loss_def [of Optimizer_zero_grad]
        is_after_loss_def [of Lr_scheduler_step] is_after_loss_def [of "Validate_fn _ _ _"]
        after_loss_batch)
qed

lemma after_loss_train:
  assumes "runs_through a" and "after_loss_fn a" and "0 < epochs a"
  shows "\<exists>s b. train a c w = Inr (s, b) \<and>
     filter is_after_loss (trace s) =
     concat (map (\<lambda>e. map (\<lambda>i. After_loss_fn (effective_amp a)
                               (e * int (length (loader_train a)) + int i)
                               ((epochs a - resume a) * int (length (loader_train a))))
                        [0..<length (loader_train a)])
               [resume a + 1..epochs a])"
proof -
  have nd: "\<And>ev::'a event. is_after_loss ev \<Longrightarrow> \<not> result_dependent ev"
    by (simp add: is_after_loss_def result_dependent_def split: event.splits)
  from train_projection [where w = w and c = c, OF assms(1) assms(3) nd] obtain s b where
    r: "train a c w = Inr (s, b)" and
    f: "filter is_after_loss (trace s) = filter is_after_loss (train_events a)"
    by blast
  have "filter is_after_loss (train_events a) =
     concat (map (\<lambda>e. map (\<lambda>i. After_loss_fn (effective_amp a)
                               (e * int (length (loader_train a)) + int i) (total_iter_of a))
                        [0..<length (loader_train a)])
               [resume a + 1..epochs a])"
    using assms(2)
    by (simp add: filter_train_events after_loss_epoch is_after_loss_def [of GradScaler_new]
        is_after_loss_def [of "Validate_fn _ _ _"] is_after_loss_def [of Lr_scheduler_step]
        is_after_loss_def [of Module_zero_grad])
  with r f show ?thesis by (auto simp: total_iter_of_def)
qed

lemma runs_through_demo: "runs_through demo_args"
  by (simp add: runs_through_def demo_args_def)

lemma hd_concat_map_upto:
  assumes "lo \<le> hi" and "0 < n"
  shows "hd (concat (map (\<lambda>e. map (f e) [0..<n]) [lo..hi])) = f lo 0"
proof -
  from assms(1) have "[lo..hi] = lo # [lo + 1..hi]" by (simp add: upto_rec1)
  moreover from assms(2) have "[0..<n] = 0 # [1..<n]" by (simp add: upt_conv_Cons)
  ultimately show ?thesis by simp
qed

lemma last_concat_map_upto:
  assumes "lo \<le> hi" and "0 < n"
  shows "last (concat (map (\<lambda>e. map (f e) [0..<n]) [lo..hi])) = f hi (n - 1)"
proof -
  from assms(1) have u: "[lo..hi] = [lo..hi - 1] @ [hi]" by (simp add: upto_rec2)
  from assms(2) have "[0..<n] = [0..<n - 1] @ [n - 1]"
    by (metis Suc_pred' upt_Suc_append zero_le)
  then have "map (f hi) [0..<n] = map (f hi) [0..<n - 1] @ [f hi (n - 1)]" by simp
  with u show ?thesis by simp
qed

lemma ema_view_batch:
  "filter ema_view (batch_events a amp' ti e ib) =
   Get_data_fn (snd ib) Mode_train # ema_events a e (fst ib)"
  by (simp add: batch_events_def backward_events_def ema_events_def ema_view_def
      split: option.split)

lemma ema_view_epoch:
  "filter ema_view (epoch_events a amp' ti e) =
   concat (map (\<lambda>ib. Get_data_fn (snd ib) Mode_train # ema_events a e (fst ib))
     (enumerate 0 (loader_train a)))"
  by (simp add: filter_epoch_events ema_view_batch) (simp add: ema_view_def)

lemma schedule_view_batch:
  "filter schedule_view (batch_events a amp' ti e ib) =
   (if lr_scheduler a \<and> lr_scheduler_freq a = ''step'' then [Lr_scheduler_step] else [])"
  by (simp add: batch_events_def backward_events_def ema_events_def schedule_view_def
      split: option.split)

lemma concat_map_const: "concat (map (\<lambda>x. ys) xs) = concat (replicate (length xs) ys)"
  by (induction xs) simp_all

lemma concat_replicate_single: "concat (replicate n [x]) = replicate n x"
  by (induction n) simp_all

lemma schedule_view_epoch:
  "filter schedule_view (epoch_events a amp' ti e) =
   (if epoch_fn a then [Epoch_fn e] else []) @ [Activate_params True]
   @ (if lr_scheduler a \<and> lr_scheduler_freq a = ''step''
      then replicate (length (loader_train a)) Lr_scheduler_step else [])
   @ (if lr_scheduler a \<and> lr_scheduler_freq a = ''epochs'' then [Lr_scheduler_step] else [])"
  by (simp add: filter_epoch_events schedule_view_batch concat_map_const
      concat_replicate_single)
     (simp add: schedule_view_def)

lemma validation_view_batch:
  "filter validation_view (batch_events a amp' ti e ib) = []"
  by (simp add: batch_events_def backward_events_def ema_events_def validation_view_def
      split: option.split)

lemma validation_view_epoch:
  "filter validation_view (epoch_events a amp' ti e) =
   Activate_params True #
   (if validation_due a e then [Validate_fn True (writer a) (e + start_epoch a)] else [])"
  by (simp add: filter_epoch_events validation_view_batch) (simp add: validation_view_def)

subsection \<open>Epochs after which no validation is due\<close>

lemma checkpoint_not_due:
  "\<not> validation_due a e \<Longrightarrow> checkpoint a c e sb = Inr sb"
  by (cases sb) (auto simp: checkpoint_def validation_due_def)

lemma save_not_in_batch: "Save_fn \<notin> set (batch_events a amp' ti e ib)"
  by (simp add: batch_events_def backward_events_def ema_events_def split: option.split)

lemma train_epoch_not_due:
  assumes "train_epoch a c amp' ti e sb = Inr sb'" and "\<not> validation_due a e"
  shows "(Save_fn \<in> set (trace (fst sb')) \<longrightarrow> Save_fn \<in> set (trace (fst sb)))
         \<and> snd sb' = snd sb"
proof -
  let ?s0 = "call c (Activate_params True) (call_if (change_train_eval a) c Module_train
      (if epoch_fn a then call c (Epoch_fn e) (call c (Activate_params False) (fst sb))
       else fst sb))"
  from assms obtain sl where
    b: "train_batches a c amp' ti e (enumerate 0 (loader_train a))
          (?s0, MetricLogger (meter_window a)) = Inr sl"
    by (auto simp: train_epoch_def Let_def split: sum.splits)
  have "Save_fn \<notin> set (concat (map (batch_events a amp' ti e) (enumerate 0 (loader_train a))))"
    by (simp add: save_not_in_batch)
  with trace_train_batches [OF b]
  have t: "Save_fn \<in> set (trace (fst sl)) \<longrightarrow> Save_fn \<in> set (trace (fst sb))"
    by (auto simp: trace_call trace_call_if split: if_splits)
  from assms b t show ?thesis
    by (auto simp: train_epoch_def Let_def trace_call trace_call_if checkpoint_not_due
        split: sum.splits if_splits)
qed

lemma train_epochs_no_interval:
  assumes "validate_interval a = 0"
  shows "train_epochs a c amp' ti es sb = Inr sb' \<Longrightarrow>
         (Save_fn \<in> set (trace (fst sb')) \<longrightarrow> Save_fn \<in> set (trace (fst sb)))
         \<and> snd sb' = snd sb"
proof (induction es arbitrary: sb)
  case Nil
  then show ?case by simp
next
  case (Cons ep es)
  from Cons.prems obtain sb1 where
    h: "train_epoch a c amp' ti (ep + 1) sb = Inr sb1" and
    r: "train_epochs a c amp' ti es sb1 = Inr sb'"
    by (auto split: sum.splits)
  from assms have "\<not> validation_due a (ep + 1)" by (simp add: validation_due_def)
  from train_epoch_not_due [OF h this] Cons.IH [OF r] show ?case by simp
qed

lemma train_no_interval:
  assumes "train a c w = Inr sb" and "validate_interval a = 0"
  shows "Save_fn \<notin> set (trace (fst sb)) \<and> snd sb = None"
proof (cases "epochs a \<le> 0")
  case True
  with assms show ?thesis by (auto simp: train_def)
next
  case False
  let ?s0 = "call_if (effective_amp a) c GradScaler_new \<lparr>world = w, trace = []\<rparr>"
  let ?s1 = "if resume a \<noteq> 0 \<and> lr_scheduler a
             then fold (\<lambda>_. call c Lr_scheduler_step) (py_range 0 (resume a)) ?s0
             else ?s0"
  from assms False obtain sb1 where
    l: "train_epochs a c (effective_amp a) (total_iter_of a) (py_range (resume a) (epochs a))
          (?s1, None) = Inr sb1" and
    f: "sb = (call c Module_zero_grad (fst sb1), snd sb1)"
    by (auto simp: train_def effective_amp_def total_iter_of_def initial_validate_def Let_def
        split: sum.splits if_splits)
  have "Save_fn \<notin> set (trace ?s1)"
    by (simp add: trace_fold_call trace_call_if)
  with train_epochs_no_interval [OF assms(2) l] f show ?thesis
    by (auto simp: trace_call)
qed

subsection \<open>The amp flag\<close>

lemma train_batch_amp_field:
  "train_batch (a\<lparr>amp := x\<rparr>) c amp' ti e i data sl = train_batch a c amp' ti e i data sl"
  by (simp add: train_batch_def backward_step_def ema_step_def Let_def
      split: sum.split option.split)

lemma train_batches_amp_field:
  "train_batches (a\<lparr>amp := x\<rparr>) c amp' ti e ibs sl = train_batches a c amp' ti e ibs sl"
  by (induction ibs arbitrary: sl) (auto simp: train_batch_amp_field split: sum.splits)

lemma checkpoint_amp_field:
  "checkpoint (a\<lparr>amp := x\<rparr>) c e sb = checkpoint a c e sb"
  by (simp add: checkpoint_def Let_def split: option.split)

lemma train_epoch_amp_field:
  "train_epoch (a\<lparr>amp := x\<rparr>) c amp' ti e sb = train_epoch a c amp' ti e sb"
  by (simp add: train_epoch_def train_batches_amp_field checkpoint_amp_field Let_def
      split: sum.split)

lemma train_epochs_amp_field:
  "train_epochs (a\<lparr>amp := x\<rparr>) c amp' ti es sb = train_epochs a c amp' ti es sb"
  by (induction es arbitrary: sb) (auto simp: train_epoch_amp_field split: sum.splits)

lemma train_amp_without_gpu:
  "num_gpus a = 0 \<Longrightarrow> train (a\<lparr>amp := x\<rparr>) c w = train (a\<lparr>amp := y\<rparr>) c w"
  by (simp add: train_def train_epochs_amp_field initial_validate_def Let_def
      split: sum.split)

lemma precision_view_batch:
  "filter precision_view (batch_events a False ti e ib) =
   [Forward_fn False, Loss_fn False, Backward, Optimizer_step]"
  by (simp add: batch_events_def backward_events_def ema_events_def precision_view_def
      split: option.split)

lemma precision_view_epoch:
  "filter precision_view (epoch_events a False ti e) =
   concat (map (\<lambda>data. [Forward_fn False, Loss_fn False, Backward, Optimizer_step])
     (loader_train a))"
proof -
  have "concat (map (\<lambda>ib. [Forward_fn False, Loss_fn False, Backward, Optimizer_step :: 'a event])
          (enumerate 0 (loader_train a))) =
        concat (map (\<lambda>data. [Forward_fn False, Loss_fn False, Backward, Optimizer_step])
          (loader_train a))"
    by (simp add: concat_map_const)
  then show ?thesis
    by (simp add: filter_epoch_events precision_view_batch) (simp add: precision_view_def)
qed


subsection \<open>The checkpoint step and a run of four epochs\<close>

lemma checkpoint_due:
  assumes "validation_due a e" and "save a \<longrightarrow> save_fn a"
  shows "\<exists>s'. checkpoint a c e (s, Some best) =
            Inr (s', Some (if best \<le> snd (validate_ret c (world (call c
                   (Validate_fn True (writer a) (e + start_epoch a)) s)))
                 then snd (validate_ret c (world (call c
                   (Validate_fn True (writer a) (e + start_epoch a)) s)))
                 else best)) \<and>
          filter checkpoint_view (trace s') =
            filter checkpoint_view (trace s)
            @ Validate_fn True (writer a) (e + start_epoch a)
              # (if best \<le> snd (validate_ret c (world (call c
                     (Validate_fn True (writer a) (e + start_epoch a)) s))) \<and> save a
                 then [Save_fn] else [])"
  using assms
  by (auto simp: checkpoint_def validation_due_def Let_def trace_call trace_call_if
      checkpoint_view_def)

lemma demo_range: "py_range 0 4 = [0, 1, 2, 3]"
  by (simp add: py_range_def upto_rec1)

subsection \<open>The meters of validate\<close>

lemma forward_window: "forward (a\<lparr>v_meter_window := ws\<rparr>) = forward a"
  by (simp add: forward_def split: option.split)

lemma batch_stats_window:
  "batch_stats (a\<lparr>v_meter_window := ws\<rparr>) g lf bs m = batch_stats a g lf bs m"
  by (induction bs arbitrary: m) (simp_all add: forward_window Let_def)

lemma length_batch_stats: "length (batch_stats a g lf bs m) = length bs"
  by (induction bs arbitrary: m) (simp_all add: Let_def)

lemma validate_batches_stats:
  assumes "v_get_data_fn a = Some g" and "v_loss_fn a = Some lf"
  shows "\<exists>m' lg'. validate_batches a bs (m, lg) = Inr (m', lg') \<and>
     sv_total (m_loss lg') = sv_total (m_loss lg)
       + (\<Sum>x\<leftarrow>batch_stats a g lf bs m. fst x * real_of_int (snd (snd x))) \<and>
     sv_count (m_loss lg') = sv_count (m_loss lg) + total_samples (batch_stats a g lf bs m) \<and>
     sv_total (m_top1 lg') = sv_total (m_top1 lg)
       + (\<Sum>x\<leftarrow>batch_stats a g lf bs m. fst (snd x) * real_of_int (snd (snd x))) \<and>
     sv_count (m_top1 lg') = sv_count (m_top1 lg) + total_samples (batch_stats a g lf bs m)"
proof (induction bs arbitrary: m lg)
  case Nil
  then show ?case by (simp add: total_samples_def)
next
  case (Cons data bs)
  let ?inp = "fst (g data Mode_valid)" and ?lbl = "snd (g data Mode_valid)"
  let ?fw = "forward a m ?inp"
  let ?lg1 = "update_meters (lf ?inp ?lbl (fst ?fw))
      (fst (v_accuracy_fn a (fst ?fw) ?lbl (v_num_classes a)))
      (snd (v_accuracy_fn a (fst ?fw) ?lbl (v_num_classes a)))
      (int (label_size0 a ?lbl)) lg"
  from assms have b: "validate_batch a data (m, lg) = Inr (snd ?fw, ?lg1)"
    by (simp add: validate_batch_def Let_def)
  from Cons.IH [of "snd ?fw" ?lg1] obtain m' lg' where
    r: "validate_batches a bs (snd ?fw, ?lg1) = Inr (m', lg')" and
    t1: "sv_total (m_loss lg') = sv_total (m_loss ?lg1)
       + (\<Sum>x\<leftarrow>batch_stats a g lf bs (snd ?fw). fst x * real_of_int (snd (snd x)))" and
    c1: "sv_count (m_loss lg') = sv_count (m_loss ?lg1)
       + total_samples (batch_stats a g lf bs (snd ?fw))" and
    t2: "sv_total (m_top1 lg') = sv_total (m_top1 ?lg1)
       + (\<Sum>x\<leftarrow>batch_stats a g lf bs (snd ?fw). fst (snd x) * real_of_int (snd (snd x)))" and
    c2: "sv_count (m_top1 lg') = sv_count (m_top1 ?lg1)
       + total_samples (batch_stats a g lf bs (snd ?fw))"
    by blast
  from b r have "validate_batches a (data # bs) (m, lg) = Inr (m', lg')" by simp
  moreover from t1 have "sv_total (m_loss lg') = sv_total (m_loss lg)
       + (\<Sum>x\<leftarrow>batch_stats a g lf (data # bs) m. fst x * real_of_int (snd (snd x)))"
    by (simp add: update_meters_def update_def Let_def)
  moreover from c1 have "sv_count (m_loss lg') = sv_count (m_loss lg)
       + total_samples (batch_stats a g lf (data # bs) m)"
    by (simp add: update_meters_def update_def Let_def total_samples_def)
  moreover from t2 have "sv_total (m_top1 lg') = sv_total (m_top1 lg)
       + (\<Sum>x\<leftarrow>batch_stats a g lf (data # bs) m. fst (snd x) * real_of_int (snd (snd x)))"
    by (simp add: update_meters_def update_def Let_def)
  moreover from c2 have "sv_count (m_top1 lg') = sv_count (m_top1 lg)
       + total_samples (batch_stats a g lf (data # bs) m)"
    by (simp add: update_meters_def update_def Let_def total_samples_def)
  ultimately show ?case by blast
qed

lemma validate_batches_eval:
  assumes "\<forall>m x. \<not> training m \<longrightarrow> snd (forward a m x) = m"
  shows "\<not> training m \<Longrightarrow> validate_batches a bs (m, lg) = Inr (m', lg') \<Longrightarrow> m' = m"
proof (induction bs arbitrary: lg)
  case Nil
  then show ?case by simp
next
  case (Cons data bs)
  from Cons.prems(2) obtain ml1 where
    b: "validate_batch a data (m, lg) = Inr ml1" and
    r: "validate_batches a bs ml1 = Inr (m', lg')"
    by (auto split: sum.splits)
  from b assms Cons.prems(1) have "fst ml1 = m"
    by (auto simp: validate_batch_def Let_def split: option.splits)
  with r Cons.IH [OF Cons.prems(1), of "snd ml1"] show ?case
    by (cases ml1) simp
qed

subsection \<open>The validation before the first epoch, with and without a hook\<close>

lemma initial_validate_seeds_best:
  "validate_interval a \<noteq> 0 \<Longrightarrow> validate_fn a \<Longrightarrow>
   initial_validate a c s =
     Inr (call c (Validate_fn False False (start_epoch a)) s,
          Some (snd (validate_ret c (world (call c (Validate_fn False False (start_epoch a)) s)))))"
  by (simp add: initial_validate_def Let_def)

lemma train_default_validate_fn_raises:
  "0 < epochs a \<Longrightarrow> validate_interval a \<noteq> 0 \<Longrightarrow> \<not> validate_fn a \<Longrightarrow>
   train a c w = Inl TypeError"
  by (simp add: train_def initial_validate_def)

subsection \<open>States as replayed traces, and the accuracies of a run\<close>

lemma linked_call: "linked c w s \<Longrightarrow> linked c w (call c ev s)"
  by (simp add: linked_def call_def)

lemma linked_fold: "linked c w s \<Longrightarrow> linked c w (fold (call c) evs s)"
  by (induction evs arbitrary: s) (simp_all add: linked_call)

lemma trace_fold: "trace (fold (call c) evs s) = trace s @ evs"
  by (induction evs arbitrary: s) (simp_all add: trace_call)

lemma call_if_fold: "call_if b c ev s = fold (call c) (if b then [ev] else []) s"
  by (simp add: call_if_def)

lemma backward_step_fold:
  "backward_step a c amp' iter ti s = fold (call c) (backward_events a amp' iter ti) s"
  by (simp add: backward_step_def backward_events_def Let_def call_if_def split: option.split)

lemma ema_step_fold:
  "ema_step a c e i s = Inr s' \<Longrightarrow> s' = fold (call c) (ema_events a e i) s"
  by (auto simp: ema_step_def ema_events_def call_if_def split: if_splits)

lemma train_batch_fold:
  "train_batch a c amp' ti e i data sl = Inr sl' \<Longrightarrow>
   fst sl' = fold (call c) (batch_events a amp' ti e (i, data)) (fst sl)"
  by (auto simp: train_batch_def batch_events_def Let_def call_if_def backward_step_fold
      split: if_splits sum.splits dest!: ema_step_fold)

lemma train_batches_fold:
  "train_batches a c amp' ti e ibs sl = Inr sl' \<Longrightarrow>
   fst sl' = fold (call c) (concat (map (batch_events a amp' ti e) ibs)) (fst sl)"
proof (induction ibs arbitrary: sl)
  case Nil
  then show ?case by simp
next
  case (Cons ib ibs)
  obtain i data where ib: "ib = (i, data)" by (cases ib)
  from Cons.prems ib obtain sl1 where
    b: "train_batch a c amp' ti e i data sl = Inr sl1" and
    r: "train_batches a c amp' ti e ibs sl1 = Inr sl'"
    by (auto split: sum.splits)
  from train_batch_fold [OF b] Cons.IH [OF r] ib show ?case by simp
qed

lemma checkpoint_view_batch: "filter checkpoint_view (batch_events a amp' ti e ib) = []"
  by (simp add: batch_events_def backward_events_def ema_events_def checkpoint_view_def
      split: option.split)

lemma checkpoint_view_batches:
  "filter checkpoint_view (concat (map (batch_events a amp' ti e) ibs)) = []"
  by (induction ibs) (simp_all add: checkpoint_view_batch)

lemma train_epoch_split:
  assumes "train_epoch a c amp' ti e sb = Inr sb'"
  shows "\<exists>pre. filter checkpoint_view pre = [] \<and>
           checkpoint a c e (fold (call c) pre (fst sb), snd sb) = Inr sb'"
proof -
  let ?hd = "(if epoch_fn a then [Activate_params False, Epoch_fn e] else [])
       @ (if change_train_eval a then [Module_train] else [])
       @ [Activate_params True]"
  let ?s0 = "fold (call c) ?hd (fst sb)"
  from assms obtain sl where
    b: "train_batches a c amp' ti e (enumerate 0 (loader_train a))
          (?s0, MetricLogger (meter_window a)) = Inr sl"
    by (auto simp: train_epoch_def Let_def call_if_def split: sum.splits if_splits)
  let ?bt = "concat (map (batch_events a amp' ti e) (enumerate 0 (loader_train a)))"
  let ?tl = "[Optimizer_zero_grad]
       @ (if lr_scheduler a \<and> lr_scheduler_freq a = ''epochs'' then [Lr_scheduler_step] else [])
       @ (if change_train_eval a then [Module_eval] else [])
       @ [Activate_params False]
       @ (if writer a then
            [Add_scalars (''Loss/'' @ main_tag a) (tag a) (global_avg (m_loss (snd sl)))
               (e + start_epoch a),
             Add_scalars (''Acc/'' @ main_tag a) (tag a) (global_avg (m_top1 (snd sl)))
               (e + start_epoch a)]
          else [])"
  from train_batches_fold [OF b] have s1: "fst sl = fold (call c) (?hd @ ?bt) (fst sb)"
    by simp
  from assms b have "checkpoint a c e (fold (call c) ?tl (fst sl), snd sb) = Inr sb'"
    by (auto simp: train_epoch_def Let_def call_if_def split: sum.splits if_splits)
  with s1 have "checkpoint a c e (fold (call c) (?hd @ ?bt @ ?tl) (fst sb), snd sb) = Inr sb'"
    by simp
  moreover have "filter checkpoint_view (?hd @ ?bt @ ?tl) = []"
    by (simp add: checkpoint_view_batches checkpoint_view_def)
  ultimately show ?thesis by blast
qed

lemma returned_accuracies_append:
  "returned_accuracies c w (xs @ ys) =
   returned_accuracies c w xs @ returned_accuracies c (fold (ext c) xs w) ys"
  by (induction xs arbitrary: w) simp_all

lemma returned_accuracies_none:
  "filter checkpoint_view xs = [] \<Longrightarrow> returned_accuracies c w xs = []"
  by (induction xs arbitrary: w)
     (auto simp: checkpoint_view_def split: event.splits if_splits)

lemma checkpoint_tracking:
  assumes "linked c w s" and "checkpoint a c e (s, Some best) = Inr sb'"
  shows "linked c w (fst sb') \<and>
     (\<exists>accs. length accs = length (filter (validation_due a) [e]) \<and>
        returned_accuracies c w (trace (fst sb')) = returned_accuracies c w (trace s) @ accs \<and>
        snd sb' = Some (best_so_far best accs) \<and>
        filter checkpoint_view (trace (fst sb')) =
          filter checkpoint_view (trace s)
          @ checkpoint_calls (save a) best
              (zip (map (\<lambda>e. Validate_fn True (writer a) (e + start_epoch a))
                      (filter (validation_due a) [e])) accs))"
proof (cases "validation_due a e")
  case False
  with assms have "sb' = (s, Some best)" by (simp add: checkpoint_not_due)
  with False assms(1) show ?thesis by simp
next
  case True
  let ?v = "Validate_fn True (writer a) (e + start_epoch a)"
  let ?cur = "snd (validate_ret c (ext c ?v (world s)))"
  from assms(1) have w: "world s = fold (ext c) (trace s) w" by (simp add: linked_def)
  let ?post = "(if best \<le> ?cur
                then (if verbose a then [Prints_best_update ?cur best] else [])
                     @ (if save a then [Save_fn] else [])
                else [])
               @ (if verbose a then [Prints_rule] else [])"
  from True assms(2) have s': "fst sb' = fold (call c) (?v # ?post) s"
    by (auto simp: checkpoint_def validation_due_def Let_def call_if_def call_def
        split: if_splits)
  from True assms(2) have b': "snd sb' = Some (if best \<le> ?cur then ?cur else best)"
    by (auto simp: checkpoint_def validation_due_def Let_def call_if_def call_def
        split: if_splits)
  have p: "filter checkpoint_view ?post = (if best \<le> ?cur \<and> save a then [Save_fn] else [])"
    by (simp add: checkpoint_view_def)
  have q: "returned_accuracies c (ext c ?v (world s)) ?post = []"
    by simp
  have l: "linked c w (fst sb')"
    unfolding s' using assms(1) by (rule linked_fold)
  have t: "trace (fst sb') = trace s @ ?v # ?post"
    unfolding s' by (rule trace_fold)
  from t q w have r: "returned_accuracies c w (trace (fst sb'))
      = returned_accuracies c w (trace s) @ [?cur]"
    by (simp add: returned_accuracies_append)
  from t p have f: "filter checkpoint_view (trace (fst sb')) = filter checkpoint_view (trace s)
      @ ?v # (if best \<le> ?cur \<and> save a then [Save_fn] else [])"
    by (simp add: checkpoint_view_def)
  from True l r b' f show ?thesis
    by (intro conjI exI [of _ "[?cur]"]) simp_all
qed

lemma train_epoch_tracking:
  assumes "linked c w (fst sb)" and "snd sb = Some best"
    and "train_epoch a c amp' ti e sb = Inr sb'"
  shows "linked c w (fst sb') \<and>
     (\<exists>accs. length accs = length (filter (validation_due a) [e]) \<and>
        returned_accuracies c w (trace (fst sb'))
          = returned_accuracies c w (trace (fst sb)) @ accs \<and>
        snd sb' = Some (best_so_far best accs) \<and>
        filter checkpoint_view (trace (fst sb')) =
          filter checkpoint_view (trace (fst sb))
          @ checkpoint_calls (save a) best
              (zip (map (\<lambda>e. Validate_fn True (writer a) (e + start_epoch a))
                      (filter (validation_due a) [e])) accs))"
proof -
  from train_epoch_split [OF assms(3)] assms(2) obtain pre where
    p: "filter checkpoint_view pre = []" and
    k: "checkpoint a c e (fold (call c) pre (fst sb), Some best) = Inr sb'"
    by auto
  let ?s = "fold (call c) pre (fst sb)"
  from assms(1) have l: "linked c w ?s" by (rule linked_fold)
  from assms(1) have w: "world (fst sb) = fold (ext c) (trace (fst sb)) w"
    by (simp add: linked_def)
  have t: "trace ?s = trace (fst sb) @ pre" by (rule trace_fold)
  from p have r: "returned_accuracies c w (trace ?s) = returned_accuracies c w (trace (fst sb))"
    by (simp add: t returned_accuracies_append returned_accuracies_none)
  from p have f: "filter checkpoint_view (trace ?s) = filter checkpoint_view (trace (fst sb))"
    by (simp add: t)
  from checkpoint_tracking [OF l k] r f show ?thesis by simp
qed

lemma best_so_far_append:
  "best_so_far best (xs @ ys) = best_so_far (best_so_far best xs) ys"
  by (induction xs arbitrary: best) simp_all

lemma checkpoint_calls_append:
  "checkpoint_calls sv best (xs @ ys) =
   checkpoint_calls sv best xs @ checkpoint_calls sv (best_so_far best (map snd xs)) ys"
  by (induction xs arbitrary: best) auto

lemma train_epochs_tracking:
  "linked c w (fst sb) \<Longrightarrow> snd sb = Some best \<Longrightarrow>
   train_epochs a c amp' ti es sb = Inr sb' \<Longrightarrow>
   linked c w (fst sb') \<and>
     (\<exists>accs. length accs = length (filter (validation_due a) (map (\<lambda>ep. ep + 1) es)) \<and>
        returned_accuracies c w (trace (fst sb'))
          = returned_accuracies c w (trace (fst sb)) @ accs \<and>
        snd sb' = Some (best_so_far best accs) \<and>
        filter checkpoint_view (trace (fst sb')) =
          filter checkpoint_view (trace (fst sb))
          @ checkpoint_calls (save a) best
              (zip (map (\<lambda>e. Validate_fn True (writer a) (e + start_epoch a))
                      (filter (validation_due a) (map (\<lambda>ep. ep + 1) es))) accs))"
proof (induction es arbitrary: sb best)
  case Nil
  then show ?case by simp
next
  case (Cons ep es)
  let ?v = "\<lambda>e. Validate_fn True (writer a) (e + start_epoch a)"
  from Cons.prems(3) obtain sb1 where
    h: "train_epoch a c amp' ti (ep + 1) sb = Inr sb1" and
    r: "train_epochs a c amp' ti es sb1 = Inr sb'"
    by (auto split: sum.splits)
  from train_epoch_tracking [OF Cons.prems(1) Cons.prems(2) h] obtain accs1 where
    l1: "linked c w (fst sb1)" and
    n1: "length accs1 = length (filter (validation_due a) [ep + 1])" and
    r1: "returned_accuracies c w (trace (fst sb1))
          = returned_accuracies c w (trace (fst sb)) @ accs1" and
    b1: "snd sb1 = Some (best_so_far best accs1)" and
    f1: "filter checkpoint_view (trace (fst sb1)) =
          filter checkpoint_view (trace (fst sb))
          @ checkpoint_calls (save a) best
              (zip (map ?v (filter (validation_due a) [ep + 1])) accs1)"
    by blast
  from Cons.IH [OF l1 b1 r] obtain accs2 where
    l2: "linked c w (fst sb')" and
    n2: "length accs2 = length (filter (validation_due a) (map (\<lambda>ep. ep + 1) es))" and
    r2: "returned_accuracies c w (trace (fst sb'))
          = returned_accuracies c w (trace (fst sb1)) @ accs2" and
    b2: "snd sb' = Some (best_so_far (best_so_far best accs1) accs2)" and
    f2: "filter checkpoint_view (trace (fst sb')) =
          filter checkpoint_view (trace (fst sb1))
          @ checkpoint_calls (save a) (best_so_far best accs1)
              (zip (map ?v (filter (validation_due a) (map (\<lambda>ep. ep + 1) es))) accs2)"
    by blast
  have z: "zip (map ?v (filter (validation_due a) (map (\<lambda>ep. ep + 1) (ep # es))))
             (accs1 @ accs2) =
           zip (map ?v (filter (validation_due a) [ep + 1])) accs1
           @ zip (map ?v (filter (validation_due a) (map (\<lambda>ep. ep + 1) es))) accs2"
    using n1 by (cases "validation_due a (ep + 1)"; cases accs1) simp_all
  have m: "map snd (zip (map ?v (filter (validation_due a) [ep + 1])) accs1) = accs1"
    using n1 by (cases "validation_due a (ep + 1)") simp_all
  have "length (accs1 @ accs2)
      = length (filter (validation_due a) (map (\<lambda>ep. ep + 1) (ep # es)))"
    using n1 n2 by simp
  moreover have "returned_accuracies c w (trace (fst sb'))
      = returned_accuracies c w (trace (fst sb)) @ (accs1 @ accs2)"
    using r1 r2 by simp
  moreover have "snd sb' = Some (best_so_far best (accs1 @ accs2))"
    using b2 by (simp add: best_so_far_append)
  moreover have "filter checkpoint_view (trace (fst sb')) =
          filter checkpoint_view (trace (fst sb))
          @ checkpoint_calls (save a) best
              (zip (map ?v (filter (validation_due a) (map (\<lambda>ep. ep + 1) (ep # es))))
                 (accs1 @ accs2))"
    using f1 f2 by (simp only: z checkpoint_calls_append m append_assoc)
  ultimately show ?case using l2 by blast
qed

lemma linked_fold_const: "linked c w s \<Longrightarrow> linked c w (fold (\<lambda>_. call c ev) xs s)"
  by (induction xs arbitrary: s) (simp_all add: linked_call)

lemma succ_py_range: "map (\<lambda>ep. ep + 1) (py_range lo hi) = [lo + 1..hi]"
  using map_py_range [of "\<lambda>x. x" lo hi] by simp

lemma train_tracking:
  assumes "runs_through a" and "0 < epochs a" and "validate_interval a \<noteq> 0"
  shows "\<exists>s accs.
     train a c w =
       Inr (s, Some (best_so_far
                 (snd (validate_ret c (ext c (Validate_fn False False (start_epoch a))
                    (if effective_amp a then ext c GradScaler_new w else w)))) accs)) \<and>
     returned_accuracies c w (trace s) =
       snd (validate_ret c (ext c (Validate_fn False False (start_epoch a))
          (if effective_amp a then ext c GradScaler_new w else w))) # accs \<and>
     length accs = length (filter (validation_due a) [resume a + 1..epochs a]) \<and>
     filter checkpoint_view (trace s) =
       Validate_fn False False (start_epoch a)
       # checkpoint_calls (save a)
           (snd (validate_ret c (ext c (Validate_fn False False (start_epoch a))
              (if effective_amp a then ext c GradScaler_new w else w))))
           (zip (map (\<lambda>e. Validate_fn True (writer a) (e + start_epoch a))
                   (filter (validation_due a) [resume a + 1..epochs a])) accs)"
proof -
  let ?v0 = "Validate_fn False False (start_epoch a)"
  let ?w0 = "if effective_amp a then ext c GradScaler_new w else w"
  let ?seed = "snd (validate_ret c (ext c ?v0 ?w0))"
  let ?pre = "(if effective_amp a then [GradScaler_new] else []) @ [?v0]
      @ (if resume a \<noteq> 0 \<and> lr_scheduler a
         then replicate (nat (resume a)) Lr_scheduler_step else [])"
  let ?init = "\<lparr>world = w, trace = []\<rparr>"
  let ?s0 = "call c ?v0 (call_if (effective_amp a) c GradScaler_new ?init)"
  let ?s1 = "if resume a \<noteq> 0 \<and> lr_scheduler a
             then fold (\<lambda>_. call c Lr_scheduler_step) (py_range 0 (resume a)) ?s0
             else ?s0"
  from train_returns [OF assms(1), where c = c and w = w] obtain sb where
    r: "train a c w = Inr sb" by blast
  from assms have vf: "validate_fn a" by (simp add: runs_through_def)
  have seed: "snd (validate_ret c (world ?s0)) = ?seed"
    by (simp add: call_def call_if_def)
  from r assms(2) assms(3) vf seed obtain sb1 where
    l: "train_epochs a c (effective_amp a) (total_iter_of a) (py_range (resume a) (epochs a))
          (?s1, Some ?seed) = Inr sb1" and
    f: "sb = (call c Module_zero_grad (fst sb1), snd sb1)"
    by (auto simp: train_def effective_amp_def total_iter_of_def initial_validate_def Let_def
        split: sum.splits if_splits)
  have "linked c w ?init" by (simp add: linked_def)
  then have l0: "linked c w ?s0"
    by (simp add: call_if_def linked_call)
  then have l1: "linked c w ?s1"
    by (simp add: linked_fold_const)
  have t1: "trace ?s1 = ?pre"
    by (simp add: trace_call trace_call_if trace_fold_call length_py_range)
  have ra: "returned_accuracies c w ?pre = [?seed]"
    by (simp add: returned_accuracies_append returned_accuracies_none checkpoint_view_def)
  have cv: "filter checkpoint_view ?pre = [?v0]"
    by (simp add: checkpoint_view_def)
  from train_epochs_tracking [OF _ _ l, of w ?seed] l1 obtain accs where
    l2: "linked c w (fst sb1)" and
    n: "length accs = length (filter (validation_due a) [resume a + 1..epochs a])" and
    r2: "returned_accuracies c w (trace (fst sb1)) = returned_accuracies c w (trace ?s1) @ accs" and
    b2: "snd sb1 = Some (best_so_far ?seed accs)" and
    f2: "filter checkpoint_view (trace (fst sb1)) =
          filter checkpoint_view (trace ?s1)
          @ checkpoint_calls (save a) ?seed
              (zip (map (\<lambda>e. Validate_fn True (writer a) (e + start_epoch a))
                      (filter (validation_due a) [resume a + 1..epochs a])) accs)"
    by (auto simp: succ_py_range)
  from l2 have w1: "world (fst sb1) = fold (ext c) (trace (fst sb1)) w"
    by (simp add: linked_def)
  have "returned_accuracies c w (trace (call c Module_zero_grad (fst sb1))) = ?seed # accs"
    using r2 ra by (simp only: t1 trace_call returned_accuracies_append) simp
  moreover have "filter checkpoint_view (trace (call c Module_zero_grad (fst sb1))) =
       ?v0 # checkpoint_calls (save a) ?seed
           (zip (map (\<lambda>e. Validate_fn True (writer a) (e + start_epoch a))
                   (filter (validation_due a) [resume a + 1..epochs a])) accs)"
    using f2 cv by (simp only: t1 trace_call filter_append) (simp add: checkpoint_view_def)
  ultimately show ?thesis using r f b2 n by auto
qed

lemma demo_run_accuracies:
  assumes "p \<le> 70"
  shows "\<exists>s. train demo_args (counting_world [p, 70, 65, 80, 75]) 0 = Inr (s, Some 80) \<and>
     returned_accuracies (counting_world [p, 70, 65, 80, 75]) 0 (trace s) = [p, 70, 65, 80, 75] \<and>
     filter checkpoint_view (trace s) =
       [Validate_fn False False 0,
        Validate_fn True False 1, Save_fn,
        Validate_fn True False 2,
        Validate_fn True False 3, Save_fn,
        Validate_fn True False 4]"
  using assms
  by (simp add: train_def initial_validate_def train_epoch_def train_batch_def
      backward_step_def ema_step_def checkpoint_def global_avg_def update_meters_def update_def
      MetricLogger_def SmoothedValue_def deque_append_def call_def call_if_def
      demo_args_def counting_world_def counting_ext_def acc_at_def demo_range
      checkpoint_view_def Let_def)

lemma checkpoint_linked:
  "linked c w (fst sb) \<Longrightarrow> checkpoint a c e sb = Inr sb' \<Longrightarrow> linked c w (fst sb')"
  by (cases sb)
     (auto simp: checkpoint_def Let_def call_if_def linked_call
        split: if_splits option.splits)

lemma train_epoch_linked:
  assumes "linked c w (fst sb)" and "train_epoch a c amp' ti e sb = Inr sb'"
  shows "linked c w (fst sb')"
proof -
  from train_epoch_split [OF assms(2)] obtain pre where
    k: "checkpoint a c e (fold (call c) pre (fst sb), snd sb) = Inr sb'"
    by blast
  from assms(1) have "linked c w (fst (fold (call c) pre (fst sb), snd sb))"
    by (simp add: linked_fold)
  from checkpoint_linked [OF this k] show ?thesis .
qed

lemma train_epochs_linked:
  "linked c w (fst sb) \<Longrightarrow> train_epochs a c amp' ti es sb = Inr sb' \<Longrightarrow>
   linked c w (fst sb')"
proof (induction es arbitrary: sb)
  case Nil
  then show ?case by simp
next
  case (Cons ep es)
  from Cons.prems(2) obtain sb1 where
    h: "train_epoch a c amp' ti (ep + 1) sb = Inr sb1" and
    r: "train_epochs a c amp' ti es sb1 = Inr sb'"
    by (auto split: sum.splits)
  from Cons.IH [OF train_epoch_linked [OF Cons.prems(1) h] r] show ?case .
qed

lemma train_linked:
  assumes "train a c w = Inr sb"
  shows "world (fst sb) = fold (ext c) (trace (fst sb)) w"
proof (cases "epochs a \<le> 0")
  case True
  with assms show ?thesis by (auto simp: train_def)
next
  case False
  let ?init = "\<lparr>world = w, trace = []\<rparr>"
  let ?s0 = "call_if (effective_amp a) c GradScaler_new ?init"
  from assms False obtain sb0 where
    i: "initial_validate a c ?s0 = Inr sb0"
    by (auto simp: train_def effective_amp_def Let_def split: sum.splits if_splits)
  let ?s1 = "if resume a \<noteq> 0 \<and> lr_scheduler a
             then fold (\<lambda>_. call c Lr_scheduler_step) (py_range 0 (resume a)) (fst sb0)
             else fst sb0"
  from assms False i obtain sb1 where
    l: "train_epochs a c (effective_amp a) (total_iter_of a) (py_range (resume a) (epochs a))
          (?s1, snd sb0) = Inr sb1" and
    f: "sb = (call c Module_zero_grad (fst sb1), snd sb1)"
    by (auto simp: train_def effective_amp_def total_iter_of_def Let_def
        split: sum.splits if_splits)
  have "linked c w ?init" by (simp add: linked_def)
  then have "linked c w ?s0" by (simp add: call_if_def linked_call)
  with i have "linked c w (fst sb0)"
    by (auto simp: initial_validate_def Let_def linked_call split: if_splits)
  then have "linked c w (fst (?s1, snd sb0))" by (simp add: linked_fold_const)
  from train_epochs_linked [OF this l] f have "linked c w (fst sb)"
    by (simp add: linked_call)
  then show ?thesis by (simp add: linked_def)
qed

subsection \<open>A call with no epoch to run\<close>

text \<open>
  C3. With \<open>epochs \<le> 0\<close> train returns at once and normally: no collaborator has
  been called (the trace is empty, so no optimizer step and no hook), the world is the
  one it was given, and no best accuracy has been bound.
\<close>

theorem train_nonpositive_epochs_noop:
  "epochs a \<le> 0 \<Longrightarrow> train a c w = Inr (\<lparr>world = w, trace = []\<rparr>, None)"
  by (simp add: train_def)

theorem train_nonpositive_epochs_noop_witness:
  "epochs (demo_args\<lparr>epochs := 0\<rparr>) \<le> 0 \<and>
   train (demo_args\<lparr>epochs := 0\<rparr>) (counting_world []) 0 = Inr (\<lparr>world = 0, trace = []\<rparr>, None)"
  using train_nonpositive_epochs_noop [of "demo_args\<lparr>epochs := 0\<rparr>" "counting_world []" 0]
  by (simp add: demo_args_def)

subsection \<open>Tracking the best accuracy\<close>

text \<open>
  C1, as amended. In a run of train that goes through with validation on, the best
  accuracy starts as the accuracy returned by the validation before the first epoch.
  At every periodic validation, when the accuracy returned is greater than or equal to
  the best so far, the best becomes that accuracy and \<open>save_fn\<close> is called right after
  if \<open>save\<close> is set; otherwise the best stays and nothing is saved. A tie counts as
  an improvement. The accuracies are those the validation calls return along the run,
  the first one being the one before the first epoch; the best at the end and the
  places of the \<open>save_fn\<close> calls are the ones the rule gives from these accuracies.
  The same is said of the checkpoint step alone. In particular, when the validation
  before the first epoch returns at most 70 and the four periodic validations return
  70, 65, 80, 75, \<open>save_fn\<close> is called exactly after the first and the third and the
  best ends at 80.
\<close>

theorem best_accuracy_tracking:
  "(runs_through a \<and> 0 < epochs a \<and> validate_interval a \<noteq> 0 \<longrightarrow>
      (\<exists>s accs.
         train a c w =
           Inr (s, Some (best_so_far
                     (snd (validate_ret c (ext c (Validate_fn False False (start_epoch a))
                        (if effective_amp a then ext c GradScaler_new w else w)))) accs)) \<and>
         returned_accuracies c w (trace s) =
           snd (validate_ret c (ext c (Validate_fn False False (start_epoch a))
              (if effective_amp a then ext c GradScaler_new w else w))) # accs \<and>
         length accs = length (filter (validation_due a) [resume a + 1..epochs a]) \<and>
         filter checkpoint_view (trace s) =
           Validate_fn False False (start_epoch a)
           # checkpoint_calls (save a)
               (snd (validate_ret c (ext c (Validate_fn False False (start_epoch a))
                  (if effective_amp a then ext c GradScaler_new w else w))))
               (zip (map (\<lambda>e. Validate_fn True (writer a) (e + start_epoch a))
                       (filter (validation_due a) [resume a + 1..epochs a])) accs))) \<and>
   (validation_due a e \<and> (save a \<longrightarrow> save_fn a) \<longrightarrow>
      (\<exists>s'. checkpoint a c e (st, Some best) =
            Inr (s', Some (if best \<le> snd (validate_ret c (world (call c
                   (Validate_fn True (writer a) (e + start_epoch a)) st)))
                 then snd (validate_ret c (world (call c
                   (Validate_fn True (writer a) (e + start_epoch a)) st)))
                 else best)) \<and>
          filter checkpoint_view (trace s') =
            filter checkpoint_view (trace st)
            @ Validate_fn True (writer a) (e + start_epoch a)
              # (if best \<le> snd (validate_ret c (world (call c
                     (Validate_fn True (writer a) (e + start_epoch a)) st))) \<and> save a
                 then [Save_fn] else []))) \<and>
   (p \<le> 70 \<longrightarrow>
      (\<exists>s. train demo_args (counting_world [p, 70, 65, 80, 75]) 0 = Inr (s, Some 80) \<and>
         returned_accuracies (counting_world [p, 70, 65, 80, 75]) 0 (trace s)
           = [p, 70, 65, 80, 75] \<and>
         filter checkpoint_view (trace s) =
           [Validate_fn False False 0,
            Validate_fn True False 1, Save_fn,
            Validate_fn True False 2,
            Validate_fn True False 3, Save_fn,
            Validate_fn True False 4]))"
  using train_tracking [of a c w] checkpoint_due [of a e c st best] demo_run_accuracies [of p]
  by blast

theorem best_accuracy_tracking_witness:
  "runs_through demo_args \<and> 0 < epochs demo_args \<and> validate_interval demo_args \<noteq> 0 \<and>
   (\<exists>s accs.
      train demo_args (counting_world [10, 70, 65, 80, 75]) 0
        = Inr (s, Some (best_so_far 10 accs)) \<and>
      returned_accuracies (counting_world [10, 70, 65, 80, 75]) 0 (trace s) = 10 # accs \<and>
      length accs = 4 \<and>
      filter checkpoint_view (trace s) =
        Validate_fn False False 0
        # checkpoint_calls True 10
            (zip [Validate_fn True False 1, Validate_fn True False 2,
                  Validate_fn True False 3, Validate_fn True False 4] accs)) \<and>
   validation_due demo_args 1 \<and> save_fn demo_args \<and>
   (\<exists>s'. checkpoint demo_args (counting_world [10, 70, 65, 80, 75]) 1
            (\<lparr>world = 1, trace = []\<rparr>, Some 10) = Inr (s', Some 70) \<and>
          filter checkpoint_view (trace s') = [Validate_fn True False 1, Save_fn]) \<and>
   (10 :: real) \<le> 70 \<and>
   (\<exists>s. train demo_args (counting_world [10, 70, 65, 80, 75]) 0 = Inr (s, Some 80) \<and>
      returned_accuracies (counting_world [10, 70, 65, 80, 75]) 0 (trace s)
        = [10, 70, 65, 80, 75] \<and>
      filter checkpoint_view (trace s) =
        [Validate_fn False False 0,
         Validate_fn True False 1, Save_fn,
         Validate_fn True False 2,
         Validate_fn True False 3, Save_fn,
         Validate_fn True False 4])"
proof -
  let ?cw = "counting_world [10, 70, 65, 80, 75]"
  let ?seed = "snd (validate_ret ?cw (ext ?cw (Validate_fn False False (start_epoch demo_args))
      (if effective_amp demo_args then ext ?cw GradScaler_new 0 else 0)))"
  let ?due = "filter (validation_due demo_args) [resume demo_args + 1..epochs demo_args]"
  let ?st = "\<lparr>world = 1 :: nat, trace = [] :: nat event list\<rparr>"
  let ?cur = "snd (validate_ret ?cw (world (call ?cw
      (Validate_fn True (writer demo_args) (1 + start_epoch demo_args)) ?st)))"
  have rt: "runs_through demo_args" by (simp add: runs_through_def demo_args_def)
  have ep: "0 < epochs demo_args" by (simp add: demo_args_def)
  have vi: "validate_interval demo_args \<noteq> 0" by (simp add: demo_args_def)
  have d: "validation_due demo_args 1" by (simp add: validation_due_def demo_args_def)
  have f: "save_fn demo_args" by (simp add: demo_args_def)
  have due: "?due = [1, 2, 3, 4]"
    by (simp add: validation_due_def demo_args_def upto_rec1)
  have seed: "?seed = 10"
    by (simp add: demo_args_def effective_amp_def counting_world_def counting_ext_def acc_at_def)
  have cur: "?cur = 70"
    by (simp add: demo_args_def call_def counting_world_def counting_ext_def acc_at_def)
  note t = best_accuracy_tracking [where a = demo_args and e = 1 and c = ?cw and w = 0
      and st = ?st and best = 10 and p = 10]
  from t rt ep vi obtain s accs where
    a1: "train demo_args ?cw 0 = Inr (s, Some (best_so_far ?seed accs))" and
    a2: "returned_accuracies ?cw 0 (trace s) = ?seed # accs" and
    a3: "length accs = length ?due" and
    a4: "filter checkpoint_view (trace s) =
           Validate_fn False False (start_epoch demo_args)
           # checkpoint_calls (save demo_args) ?seed
               (zip (map (\<lambda>e. Validate_fn True (writer demo_args) (e + start_epoch demo_args))
                       ?due) accs)"
    by blast
  from a1 have b1: "train demo_args ?cw 0 = Inr (s, Some (best_so_far 10 accs))"
    by (simp only: seed)
  from a2 have b2: "returned_accuracies ?cw 0 (trace s) = 10 # accs"
    by (simp only: seed)
  from a3 have b3: "length accs = 4" by (simp only: due) simp
  from a4 have b4: "filter checkpoint_view (trace s) =
        Validate_fn False False 0
        # checkpoint_calls True 10
            (zip [Validate_fn True False 1, Validate_fn True False 2,
                  Validate_fn True False 3, Validate_fn True False 4] accs)"
    by (simp only: seed due) (simp add: demo_args_def)
  from b1 b2 b3 b4 have g: "\<exists>s accs.
      train demo_args ?cw 0 = Inr (s, Some (best_so_far 10 accs)) \<and>
      returned_accuracies ?cw 0 (trace s) = 10 # accs \<and>
      length accs = 4 \<and>
      filter checkpoint_view (trace s) =
        Validate_fn False False 0
        # checkpoint_calls True 10
            (zip [Validate_fn True False 1, Validate_fn True False 2,
                  Validate_fn True False 3, Validate_fn True False 4] accs)"
    by blast
  from t d f obtain s' where
    c1: "checkpoint demo_args ?cw 1 (?st, Some 10) =
           Inr (s', Some (if 10 \<le> ?cur then ?cur else 10))" and
    c2: "filter checkpoint_view (trace s') =
           filter checkpoint_view (trace ?st)
           @ Validate_fn True (writer demo_args) (1 + start_epoch demo_args)
             # (if 10 \<le> ?cur \<and> save demo_args then [Save_fn] else [])"
    by blast
  from c1 have e1: "checkpoint demo_args ?cw 1 (?st, Some 10) = Inr (s', Some 70)"
    by (simp only: cur) simp
  from c2 have e2: "filter checkpoint_view (trace s') = [Validate_fn True False 1, Save_fn]"
    by (simp only: cur) (simp add: demo_args_def)
  from e1 e2 have k: "\<exists>s'. checkpoint demo_args ?cw 1 (?st, Some 10) = Inr (s', Some 70) \<and>
      filter checkpoint_view (trace s') = [Validate_fn True False 1, Save_fn]"
    by blast
  from t have r: "\<exists>s. train demo_args ?cw 0 = Inr (s, Some 80) \<and>
      returned_accuracies ?cw 0 (trace s) = [10, 70, 65, 80, 75] \<and>
      filter checkpoint_view (trace s) =
        [Validate_fn False False 0,
         Validate_fn True False 1, Save_fn,
         Validate_fn True False 2,
         Validate_fn True False 3, Save_fn,
         Validate_fn True False 4]"
    by simp
  from rt ep vi g d f k r show ?thesis by simp
qed

text \<open>
  When the validation before the first epoch returns 90, the same four accuracies lead
  to no call of \<open>save_fn\<close> at all, and the best ends at 90.
\<close>

theorem best_accuracy_pretraining_counterexample:
  "\<exists>s. train demo_args (counting_world [90, 70, 65, 80, 75]) 0 = Inr (s, Some 90) \<and>
     filter checkpoint_view (trace s) =
       [Validate_fn False False 0,
        Validate_fn True False 1,
        Validate_fn True False 2,
        Validate_fn True False 3,
        Validate_fn True False 4]"
  by (simp add: train_def initial_validate_def train_epoch_def train_batch_def
      backward_step_def ema_step_def checkpoint_def global_avg_def update_meters_def update_def
      MetricLogger_def SmoothedValue_def deque_append_def call_def call_if_def
      demo_args_def counting_world_def counting_ext_def acc_at_def demo_range
      checkpoint_view_def Let_def)

subsection \<open>When validation runs\<close>

text \<open>
  C2. In a run that goes through, the validation calls are the one before the first
  epoch (when \<open>validate_interval\<close> is not 0) and, after epoch \<open>e\<close>, one call exactly
  when \<open>validate_interval != 0\<close> and (\<open>e % validate_interval == 0\<close> or
  \<open>e == epochs\<close>); the trace is read through the validation calls and the activation
  of the parameters that opens each epoch's batch loop. With \<open>validate_interval = 0\<close>
  neither \<open>validate_fn\<close> nor \<open>save_fn\<close> is ever called and no best accuracy is
  bound. After an epoch where the condition fails, the checkpoint step changes nothing:
  no validation, no update of the best accuracy, no save.
\<close>

theorem validation_trigger:
  assumes "runs_through a" and "0 < epochs a"
  shows "\<exists>s b. train a c w = Inr (s, b) \<and>
     filter validation_view (trace s) =
       (if validate_interval a \<noteq> 0 then [Validate_fn False False (start_epoch a)] else [])
       @ concat (map (\<lambda>e. Activate_params True #
                     (if validate_interval a \<noteq> 0 \<and> (e mod validate_interval a = 0 \<or> e = epochs a)
                      then [Validate_fn True (writer a) (e + start_epoch a)] else []))
           [resume a + 1..epochs a]) \<and>
     (validate_interval a = 0 \<longrightarrow> Save_fn \<notin> set (trace s) \<and> b = None) \<and>
     (\<forall>e sb. \<not> (validate_interval a \<noteq> 0 \<and> (e mod validate_interval a = 0 \<or> e = epochs a))
        \<longrightarrow> checkpoint a c e sb = Inr sb)"
proof -
  have nd: "\<And>ev::'a event. validation_view ev \<Longrightarrow> \<not> result_dependent ev"
    by (simp add: validation_view_def result_dependent_def split: event.splits)
  from train_projection [where w = w and c = c, OF assms(1) assms(2) nd] obtain s b where
    r: "train a c w = Inr (s, b)" and
    f: "filter validation_view (trace s) = filter validation_view (train_events a)"
    by blast
  have "filter validation_view (train_events a) =
       (if validate_interval a \<noteq> 0 then [Validate_fn False False (start_epoch a)] else [])
       @ concat (map (\<lambda>e. Activate_params True #
                     (if validation_due a e
                      then [Validate_fn True (writer a) (e + start_epoch a)] else []))
           [resume a + 1..epochs a])"
    by (simp add: filter_train_events validation_view_epoch) (simp add: validation_view_def)
  with f have v: "filter validation_view (trace s) =
       (if validate_interval a \<noteq> 0 then [Validate_fn False False (start_epoch a)] else [])
       @ concat (map (\<lambda>e. Activate_params True #
                     (if validate_interval a \<noteq> 0 \<and> (e mod validate_interval a = 0 \<or> e = epochs a)
                      then [Validate_fn True (writer a) (e + start_epoch a)] else []))
           [resume a + 1..epochs a])"
    by (simp add: validation_due_def)
  from train_no_interval [OF r]
  have n: "validate_interval a = 0 \<longrightarrow> Save_fn \<notin> set (trace s) \<and> b = None" by simp
  have k: "\<forall>e sb. \<not> (validate_interval a \<noteq> 0 \<and> (e mod validate_interval a = 0 \<or> e = epochs a))
        \<longrightarrow> checkpoint a c e sb = Inr sb"
    using checkpoint_not_due [of a _ c] by (simp add: validation_due_def)
  from r v n k show ?thesis by blast
qed

theorem validation_trigger_witness:
  "\<exists>s b. train (demo_args\<lparr>validate_interval := 3, writer := True, start_epoch := 10\<rparr>)
            (counting_world [1, 2, 3]) 0 = Inr (s, b) \<and>
     filter validation_view (trace s) =
       [Validate_fn False False 10,
        Activate_params True,
        Activate_params True,
        Activate_params True, Validate_fn True True 13,
        Activate_params True, Validate_fn True True 14]"
proof -
  have rt: "runs_through (demo_args\<lparr>validate_interval := 3, writer := True, start_epoch := 10\<rparr>)"
    by (simp add: runs_through_def demo_args_def)
  have u: "[1..4] = [1, 2, 3, 4::int]" by (simp add: upto_rec1)
  from validation_trigger [OF rt, where c = "counting_world [1, 2, 3]" and w = 0] u show ?thesis
    by (auto simp: demo_args_def)
qed

subsection \<open>The schedule of the EMA updates\<close>

text \<open>
  C4. With an EMA tracker and a stride other than 0, in every epoch \<open>e\<close> of a run
  that goes through the shadow weights are updated right after the batches whose
  zero-based index \<open>i\<close> satisfies \<open>i % model_ema_steps == 0\<close> and after no other
  batch, and each such update is followed by the reset of \<open>n_averaged\<close> to 0 exactly
  when \<open>e \<le> lr_warmup_epochs\<close>. The trace is read through the calls of
  \<open>get_data_fn\<close>, which open each batch, and the two EMA calls. The world the run
  leaves is the one its calls lead to, applied in the order of the trace: every update
  and every reset in the trace has acted on the collaborators.
\<close>

theorem ema_update_schedule:
  assumes "runs_through a" and "model_ema a" and "0 < epochs a"
  shows "\<exists>s b. train a c w = Inr (s, b) \<and>
     filter ema_view (trace s) =
       concat (map (\<lambda>e. concat (map (\<lambda>ib.
                 Get_data_fn (snd ib) Mode_train #
                 (if int (fst ib) mod model_ema_steps a = 0
                  then Ema_update_parameters #
                       (if e \<le> lr_warmup_epochs a then [Ema_n_averaged_fill0] else [])
                  else []))
               (enumerate 0 (loader_train a))))
         [resume a + 1..epochs a]) \<and>
     world s = fold (ext c) (trace s) w"
proof -
  have nd: "\<And>ev::'a event. ema_view ev \<Longrightarrow> \<not> result_dependent ev"
    by (simp add: ema_view_def result_dependent_def split: event.splits)
  from train_projection [where w = w and c = c, OF assms(1) assms(3) nd] obtain s b where
    r: "train a c w = Inr (s, b)" and
    f: "filter ema_view (trace s) = filter ema_view (train_events a)"
    by blast
  have "filter ema_view (train_events a) =
     concat (map (\<lambda>e. concat (map (\<lambda>ib.
                 Get_data_fn (snd ib) Mode_train # ema_events a e (fst ib))
               (enumerate 0 (loader_train a))))
         [resume a + 1..epochs a])"
    by (simp add: filter_train_events ema_view_epoch) (simp add: ema_view_def)
  with f assms(2) have "filter ema_view (trace s) =
       concat (map (\<lambda>e. concat (map (\<lambda>ib.
                 Get_data_fn (snd ib) Mode_train #
                 (if int (fst ib) mod model_ema_steps a = 0
                  then Ema_update_parameters #
                       (if e \<le> lr_warmup_epochs a then [Ema_n_averaged_fill0] else [])
                  else []))
               (enumerate 0 (loader_train a))))
         [resume a + 1..epochs a])"
    by (simp add: ema_events_def)
  moreover from train_linked [OF r] have "world s = fold (ext c) (trace s) w" by simp
  ultimately show ?thesis using r by blast
qed

theorem ema_update_schedule_witness:
  "\<exists>s b. train (demo_args\<lparr>loader_train := [10, 11, 12], epochs := 2\<rparr>) (counting_world []) 0
          = Inr (s, b) \<and>
     filter ema_view (trace s) =
       [Get_data_fn 10 Mode_train, Ema_update_parameters, Ema_n_averaged_fill0,
        Get_data_fn 11 Mode_train,
        Get_data_fn 12 Mode_train, Ema_update_parameters, Ema_n_averaged_fill0,
        Get_data_fn 10 Mode_train, Ema_update_parameters,
        Get_data_fn 11 Mode_train,
        Get_data_fn 12 Mode_train, Ema_update_parameters]"
proof -
  have rt: "runs_through (demo_args\<lparr>loader_train := [10, 11, 12], epochs := 2\<rparr>)"
    by (simp add: runs_through_def demo_args_def)
  have u: "[1..2] = [1, 2::int]" by (simp add: upto_rec1)
  from ema_update_schedule [OF rt, where c = "counting_world []" and w = 0] obtain s b where
    r: "train (demo_args\<lparr>loader_train := [10, 11, 12], epochs := 2\<rparr>) (counting_world []) 0
          = Inr (s, b)" and
    f: "filter ema_view (trace s) =
       concat (map (\<lambda>e. concat (map (\<lambda>ib.
                 Get_data_fn (snd ib) Mode_train #
                 (if int (fst ib) mod
                       model_ema_steps (demo_args\<lparr>loader_train := [10, 11, 12], epochs := 2\<rparr>)
                     = 0
                  then Ema_update_parameters #
                       (if e \<le> lr_warmup_epochs
                                (demo_args\<lparr>loader_train := [10, 11, 12], epochs := 2\<rparr>)
                        then [Ema_n_averaged_fill0] else [])
                  else []))
               (enumerate 0
                  (loader_train (demo_args\<lparr>loader_train := [10, 11, 12], epochs := 2\<rparr>)))))
         [resume (demo_args\<lparr>loader_train := [10, 11, 12], epochs := 2\<rparr>) + 1
          ..epochs (demo_args\<lparr>loader_train := [10, 11, 12], epochs := 2\<rparr>)])"
    by (simp add: demo_args_def) blast
  from f u have "filter ema_view (trace s) =
       [Get_data_fn 10 Mode_train, Ema_update_parameters, Ema_n_averaged_fill0,
        Get_data_fn 11 Mode_train,
        Get_data_fn 12 Mode_train, Ema_update_parameters, Ema_n_averaged_fill0,
        Get_data_fn 10 Mode_train, Ema_update_parameters,
        Get_data_fn 11 Mode_train,
        Get_data_fn 12 Mode_train, Ema_update_parameters]"
    by (simp add: demo_args_def)
  with r show ?thesis by blast
qed

subsection \<open>Resuming the learning-rate schedule\<close>

text \<open>
  C5. With \<open>resume > 0\<close> and a learning-rate schedule, a run that goes through calls
  the schedule's \<open>step\<close> exactly \<open>resume\<close> times before the first epoch starts,
  whatever the schedule is, and then runs the epochs \<open>resume + 1\<close> to \<open>epochs\<close> in
  order. The trace is read through the schedule steps, the epoch hook (which carries
  the epoch number) and the activation of the parameters that opens each epoch's
  batch loop.
\<close>

theorem lr_schedule_resume_walk:
  assumes "runs_through a" and "0 < resume a" and "lr_scheduler a" and "0 < epochs a"
  shows "\<exists>s b. train a c w = Inr (s, b) \<and>
     filter schedule_view (trace s) =
       replicate (nat (resume a)) Lr_scheduler_step
       @ concat (map (\<lambda>e.
             (if epoch_fn a then [Epoch_fn e] else []) @ [Activate_params True]
             @ (if lr_scheduler_freq a = ''step''
                then replicate (length (loader_train a)) Lr_scheduler_step else [])
             @ (if lr_scheduler_freq a = ''epochs'' then [Lr_scheduler_step] else []))
           [resume a + 1..epochs a])"
proof -
  have nd: "\<And>ev::'a event. schedule_view ev \<Longrightarrow> \<not> result_dependent ev"
    by (simp add: schedule_view_def result_dependent_def split: event.splits)
  from train_projection [where w = w and c = c, OF assms(1) assms(4) nd] obtain s b where
    r: "train a c w = Inr (s, b)" and
    f: "filter schedule_view (trace s) = filter schedule_view (train_events a)"
    by blast
  have "filter schedule_view (train_events a) =
       replicate (nat (resume a)) Lr_scheduler_step
       @ concat (map (\<lambda>e.
             (if epoch_fn a then [Epoch_fn e] else []) @ [Activate_params True]
             @ (if lr_scheduler_freq a = ''step''
                then replicate (length (loader_train a)) Lr_scheduler_step else [])
             @ (if lr_scheduler_freq a = ''epochs'' then [Lr_scheduler_step] else []))
           [resume a + 1..epochs a])"
    using assms(2) assms(3)
    by (simp add: filter_train_events schedule_view_epoch) (simp add: schedule_view_def)
  with r f show ?thesis by auto
qed

theorem lr_schedule_resume_walk_witness:
  "\<exists>s b. train (demo_args\<lparr>resume := 2, epoch_fn := True\<rparr>) (counting_world []) 0 = Inr (s, b) \<and>
     filter schedule_view (trace s) =
       [Lr_scheduler_step, Lr_scheduler_step,
        Epoch_fn 3, Activate_params True, Lr_scheduler_step,
        Epoch_fn 4, Activate_params True, Lr_scheduler_step]"
proof -
  have rt: "runs_through (demo_args\<lparr>resume := 2, epoch_fn := True\<rparr>)"
    by (simp add: runs_through_def demo_args_def)
  have u: "[3..4] = [3, 4::int]" by (simp add: upto_rec1)
  have n: "replicate (nat 2) Lr_scheduler_step = [Lr_scheduler_step, Lr_scheduler_step :: nat event]"
    by (simp add: numeral_2_eq_2)
  from lr_schedule_resume_walk [OF rt, where c = "counting_world []" and w = 0] u n show ?thesis
    by (auto simp: demo_args_def)
qed

subsection \<open>What validate returns\<close>

text \<open>
  C6. With \<open>get_data_fn\<close> and \<open>loss_fn\<close> injected, for every loader validate goes over
  the loader once (one entry of the batch statistics per batch, in order), weighs the
  loss and the top-1 accuracy of each batch by the size of the batch, and returns the
  loss summed with these weights divided by the number of samples, and the same for the
  top-1 accuracy, whatever the window of the meters is. For a loader without a sample
  the two averages are those of meters that have seen nothing, 0.0.
\<close>

theorem validate_returns_weighted_averages:
  assumes "v_get_data_fn a = Some g" and "v_loss_fn a = Some lf"
    and "st = batch_stats a g lf (v_loader a) (module_eval m)"
  shows "\<exists>m' sink. validate (a\<lparr>v_meter_window := ws\<rparr>) m =
           Inr ((weighted_loss st, weighted_top1 st), m', sink) \<and>
         length st = length (v_loader a)"
proof -
  let ?a = "a\<lparr>v_meter_window := ws\<rparr>"
  from assms have g: "v_get_data_fn ?a = Some g" and l: "v_loss_fn ?a = Some lf" by simp_all
  from validate_batches_stats [OF g l, of "v_loader a" "module_eval m" "MetricLogger ws"]
  obtain m' lg' where
    r: "validate_batches ?a (v_loader a) (module_eval m, MetricLogger ws) = Inr (m', lg')" and
    t1: "sv_total (m_loss lg') = (\<Sum>x\<leftarrow>st. fst x * real_of_int (snd (snd x)))" and
    c1: "sv_count (m_loss lg') = total_samples st" and
    t2: "sv_total (m_top1 lg') = (\<Sum>x\<leftarrow>st. fst (snd x) * real_of_int (snd (snd x)))" and
    c2: "sv_count (m_top1 lg') = total_samples st"
    by (auto simp: batch_stats_window assms(3) MetricLogger_def SmoothedValue_def)
  from t1 c1 have a1: "global_avg (m_loss lg') = weighted_loss st"
    by (simp add: global_avg_def weighted_loss_def)
  from t2 c2 have a2: "global_avg (m_top1 lg') = weighted_top1 st"
    by (simp add: global_avg_def weighted_top1_def)
  from r a1 a2 have
    "\<exists>sink. validate ?a m = Inr ((weighted_loss st, weighted_top1 st), m', sink)"
    by (simp add: validate_def Let_def)
  with assms(3) show ?thesis by (auto simp: length_batch_stats)
qed

theorem validate_returns_weighted_averages_witness:
  "(\<exists>m' sink. validate (demo_validate_args\<lparr>v_meter_window := Some 7\<rparr>) demo_module =
      Inr ((13 / 4, 13 / 2), m', sink)) \<and>
   (\<exists>m' sink. validate (demo_validate_args\<lparr>v_loader := [], v_meter_window := None\<rparr>)
        demo_module = Inr ((0, 0), m', sink))"
proof -
  have s: "batch_stats demo_validate_args (\<lambda>b md. b) (\<lambda>x l outp. outp)
      (v_loader demo_validate_args) (module_eval demo_module) = [(1, 2, 2), (4, 8, 6)]"
    by (simp add: demo_validate_args_def demo_module_def module_eval_def forward_def
        demo_call_def Let_def)
  have "\<exists>m' sink. validate (demo_validate_args\<lparr>v_meter_window := Some 7\<rparr>) demo_module =
      Inr ((weighted_loss [(1, 2, 2), (4, 8, 6)], weighted_top1 [(1, 2, 2), (4, 8, 6)]), m', sink)"
    using validate_returns_weighted_averages [where a = demo_validate_args
        and g = "\<lambda>b md. b" and lf = "\<lambda>x l outp. outp" and m = demo_module
        and st = "[(1, 2, 2), (4, 8, 6)]" and ws = "Some 7"] s
    by (simp add: demo_validate_args_def)
  then have full: "\<exists>m' sink. validate (demo_validate_args\<lparr>v_meter_window := Some 7\<rparr>)
      demo_module = Inr ((13 / 4, 13 / 2), m', sink)"
    by (simp add: weighted_loss_def weighted_top1_def total_samples_def)
  have "\<exists>m' sink. validate (demo_validate_args\<lparr>v_loader := [], v_meter_window := None\<rparr>)
      demo_module = Inr ((weighted_loss [], weighted_top1 []), m', sink)"
    using validate_returns_weighted_averages [where a = "demo_validate_args\<lparr>v_loader := []\<rparr>"
        and g = "\<lambda>b md. b" and lf = "\<lambda>x l outp. outp" and m = demo_module
        and st = "[]" and ws = None]
    by (simp add: demo_validate_args_def)
  then have empty: "\<exists>m' sink.
      validate (demo_validate_args\<lparr>v_loader := [], v_meter_window := None\<rparr>) demo_module
        = Inr ((0, 0), m', sink)"
    by (simp add: weighted_loss_def weighted_top1_def total_samples_def)
  from full empty show ?thesis by blast
qed

subsection \<open>validate leaves the model as it is, up to the mode\<close>

text \<open>
  C7. For a model whose forward pass in eval mode leaves the module as it is, a call
  of validate that returns leaves the module with the parameters it had and the mode
  set to eval, and a second call with the same arguments on the module the first one
  left returns the same loss and accuracy, leaves the same module and emits the same
  scalars.
\<close>

theorem validate_repeatable:
  assumes "\<forall>m x. \<not> training m \<longrightarrow> snd (forward a m x) = m"
    and "validate a m = Inr (r, m', sink)"
  shows "validate a m' = Inr (r, m', sink) \<and> params m' = params m
         \<and> m' = m\<lparr>training := False\<rparr>"
proof -
  from assms(2) obtain lg' where
    b: "validate_batches a (v_loader a) (module_eval m, MetricLogger (v_meter_window a))
          = Inr (m', lg')"
    by (auto simp: validate_def Let_def split: sum.splits)
  have "\<not> training (module_eval m)" by (simp add: module_eval_def)
  from validate_batches_eval [OF assms(1) this b] have m': "m' = module_eval m" .
  then have "module_eval m' = module_eval m" by (simp add: module_eval_def)
  then have "validate a m' = validate a m" by (simp add: validate_def)
  with assms(2) m' show ?thesis by (simp add: module_eval_def)
qed

theorem validate_repeatable_witness:
  "validate demo_validate_args demo_module =
     Inr ((13 / 4, 13 / 2), \<lparr>params = 0, training = False\<rparr>, []) \<and>
   validate demo_validate_args \<lparr>params = 0, training = False\<rparr> =
     Inr ((13 / 4, 13 / 2), \<lparr>params = 0, training = False\<rparr>, []) \<and>
   params \<lparr>params = 0 :: int, training = False\<rparr> = params demo_module"
proof -
  have h: "\<forall>m x. \<not> training m \<longrightarrow> snd (forward demo_validate_args m x) = m"
    by (simp add: forward_def demo_validate_args_def demo_call_def)
  have v: "validate demo_validate_args demo_module =
     Inr ((13 / 4, 13 / 2), \<lparr>params = 0, training = False\<rparr>, [])"
    by (simp add: validate_def validate_batch_def forward_def module_eval_def global_avg_def
        update_meters_def update_def MetricLogger_def SmoothedValue_def deque_append_def
        demo_validate_args_def demo_module_def demo_call_def Let_def)
  from validate_repeatable [OF h v] v show ?thesis by (simp add: demo_module_def)
qed

subsection \<open>Mixed precision without an accelerator\<close>

text \<open>
  C8. When \<open>amp\<close> is requested and \<open>env['num_gpus']\<close> is 0, train does exactly what
  it does with \<open>amp = False\<close>: asking for mixed precision adds no exception. In a run
  that goes through no loss scaler is created and every batch takes the path without
  mixed precision: forward and loss are called with \<open>amp = False\<close>, followed by
  \<open>loss.backward()\<close> and \<open>optimizer.step()\<close>, and the trace has none of the scaler's
  calls.
\<close>

theorem amp_without_gpu_disabled:
  assumes "num_gpus a = 0" and "amp a" and "runs_through a" and "0 < epochs a"
  shows "train a c w = train (a\<lparr>amp := False\<rparr>) c w \<and>
     (\<exists>s b. train a c w = Inr (s, b) \<and>
        filter precision_view (trace s) =
          concat (map (\<lambda>e. concat (map (\<lambda>data.
                    [Forward_fn False, Loss_fn False, Backward, Optimizer_step])
                  (loader_train a)))
            [resume a + 1..epochs a]))"
proof -
  from train_amp_without_gpu [OF assms(1), of "amp a" c w False]
  have e: "train a c w = train (a\<lparr>amp := False\<rparr>) c w" by simp
  have nd: "\<And>ev::'a event. precision_view ev \<Longrightarrow> \<not> result_dependent ev"
    by (simp add: precision_view_def result_dependent_def split: event.splits)
  from train_projection [where w = w and c = c, OF assms(3) assms(4) nd] obtain s b where
    r: "train a c w = Inr (s, b)" and
    f: "filter precision_view (trace s) = filter precision_view (train_events a)"
    by blast
  from assms(1) have na: "effective_amp a = False" by (simp add: effective_amp_def)
  have "filter precision_view (train_events a) =
          concat (map (\<lambda>e. concat (map (\<lambda>data.
                    [Forward_fn False, Loss_fn False, Backward, Optimizer_step])
                  (loader_train a)))
            [resume a + 1..epochs a])"
    by (simp add: filter_train_events na precision_view_epoch) (simp add: precision_view_def)
  with f have "filter precision_view (trace s) =
          concat (map (\<lambda>e. concat (map (\<lambda>data.
                    [Forward_fn False, Loss_fn False, Backward, Optimizer_step])
                  (loader_train a)))
            [resume a + 1..epochs a])"
    by simp
  with e r show ?thesis by blast
qed

theorem amp_without_gpu_disabled_witness:
  "train (demo_args\<lparr>amp := True, epochs := 2\<rparr>) (counting_world []) 0
     = train (demo_args\<lparr>amp := True, epochs := 2, amp := False\<rparr>) (counting_world []) 0 \<and>
   (\<exists>s b. train (demo_args\<lparr>amp := True, epochs := 2\<rparr>) (counting_world []) 0 = Inr (s, b) \<and>
      filter precision_view (trace s) =
        [Forward_fn False, Loss_fn False, Backward, Optimizer_step,
         Forward_fn False, Loss_fn False, Backward, Optimizer_step])"
proof -
  have rt: "runs_through (demo_args\<lparr>amp := True, epochs := 2\<rparr>)"
    by (simp add: runs_through_def demo_args_def)
  have u: "[1..2] = [1, 2::int]" by (simp add: upto_rec1)
  have g: "num_gpus (demo_args\<lparr>amp := True, epochs := 2\<rparr>) = 0" by (simp add: demo_args_def)
  have m: "amp (demo_args\<lparr>amp := True, epochs := 2\<rparr>)" by (simp add: demo_args_def)
  have p: "0 < epochs (demo_args\<lparr>amp := True, epochs := 2\<rparr>)" by (simp add: demo_args_def)
  note t = amp_without_gpu_disabled [OF g m rt p, where c = "counting_world []" and w = 0]
  from t have c1: "train (demo_args\<lparr>amp := True, epochs := 2\<rparr>) (counting_world []) 0
     = train (demo_args\<lparr>amp := True, epochs := 2, amp := False\<rparr>) (counting_world []) 0"
    by (rule conjunct1)
  from t obtain s b where
    r: "train (demo_args\<lparr>amp := True, epochs := 2\<rparr>) (counting_world []) 0 = Inr (s, b)" and
    f: "filter precision_view (trace s) =
          concat (map (\<lambda>e. concat (map (\<lambda>data.
                    [Forward_fn False, Loss_fn False, Backward, Optimizer_step])
                  (loader_train (demo_args\<lparr>amp := True, epochs := 2\<rparr>))))
            [resume (demo_args\<lparr>amp := True, epochs := 2\<rparr>) + 1
             ..epochs (demo_args\<lparr>amp := True, epochs := 2\<rparr>)])"
    by blast
  from f u have "filter precision_view (trace s) =
        [Forward_fn False, Loss_fn False, Backward, Optimizer_step,
         Forward_fn False, Loss_fn False, Backward, Optimizer_step]"
    by (simp add: demo_args_def)
  with c1 r show ?thesis by blast
qed

subsection \<open>The validation before the first epoch\<close>

text \<open>
  C9. The claim is that with \<open>validate_interval != 0\<close> train runs one validation pass
  before the first epoch and takes its accuracy as the first best accuracy. With the
  default \<open>validate_fn\<close> (none injected) the call of lines 62 to 65 reaches
  \<open>validate\<close> without \<open>module\<close> and \<open>num_classes\<close>, and train raises TypeError
  before any epoch; the periodic call of lines 176 to 184 passes both.
\<close>

theorem initial_validate_default_raises:
  "train (demo_args\<lparr>validate_fn := False\<rparr>) (counting_world []) 0 = Inl TypeError"
  by (simp add: train_def initial_validate_def demo_args_def call_if_def)

subsection \<open>The iteration index given to the post-loss hook\<close>

text \<open>
  C10, as amended. In a run that goes through with a post-loss hook, on a loader that
  has a batch, the hook is called once per batch, in epoch \<open>e\<close> from \<open>resume + 1\<close> to
  \<open>epochs\<close> and at batch index \<open>i\<close> from 0, with
  \<open>_iter = e * len(loader_train) + i\<close> and
  \<open>total_iter = (epochs - resume) * len(loader_train)\<close>. In a run that is not
  resumed the first call gets \<open>len(loader_train)\<close> and the last gets
  \<open>epochs * len(loader_train) + len(loader_train) - 1\<close>, which is at least the total
  passed with it, and greater exactly when the loader has two batches or more.
\<close>

theorem after_loss_fn_iter_index:
  assumes "runs_through a" and "after_loss_fn a" and "0 < epochs a"
    and "loader_train a \<noteq> []"
  shows "\<exists>s b. train a c w = Inr (s, b) \<and>
     filter is_after_loss (trace s) =
       concat (map (\<lambda>e. map (\<lambda>i. After_loss_fn (effective_amp a)
                                 (e * int (length (loader_train a)) + int i)
                                 ((epochs a - resume a) * int (length (loader_train a))))
                          [0..<length (loader_train a)])
                 [resume a + 1..epochs a]) \<and>
     (resume a = 0 \<longrightarrow>
        hd (filter is_after_loss (trace s)) =
          After_loss_fn (effective_amp a) (int (length (loader_train a)))
            (epochs a * int (length (loader_train a))) \<and>
        last (filter is_after_loss (trace s)) =
          After_loss_fn (effective_amp a)
            (epochs a * int (length (loader_train a)) + int (length (loader_train a)) - 1)
            (epochs a * int (length (loader_train a))) \<and>
        epochs a * int (length (loader_train a)) \<le>
          epochs a * int (length (loader_train a)) + int (length (loader_train a)) - 1 \<and>
        (epochs a * int (length (loader_train a)) <
           epochs a * int (length (loader_train a)) + int (length (loader_train a)) - 1
         \<longleftrightarrow> 2 \<le> length (loader_train a)))"
proof -
  from after_loss_train [OF assms(1,2,3), where c = c and w = w] obtain s b where
    r: "train a c w = Inr (s, b)" and
    f: "filter is_after_loss (trace s) =
       concat (map (\<lambda>e. map (\<lambda>i. After_loss_fn (effective_amp a)
                                 (e * int (length (loader_train a)) + int i)
                                 ((epochs a - resume a) * int (length (loader_train a))))
                          [0..<length (loader_train a)])
                 [resume a + 1..epochs a])"
    by blast
  from assms(4) have n: "0 < length (loader_train a)" by simp
  then have d: "int (length (loader_train a) - Suc 0) = int (length (loader_train a)) - 1"
    by (cases "loader_train a") simp_all
  have "resume a = 0 \<Longrightarrow> hd (filter is_after_loss (trace s)) =
          After_loss_fn (effective_amp a) (int (length (loader_train a)))
            (epochs a * int (length (loader_train a)))"
    using assms(3) n f hd_concat_map_upto [of 1 "epochs a" "length (loader_train a)"
        "\<lambda>e i. After_loss_fn (effective_amp a) (e * int (length (loader_train a)) + int i)
           (epochs a * int (length (loader_train a)))"]
    by simp
  moreover have "resume a = 0 \<Longrightarrow> last (filter is_after_loss (trace s)) =
          After_loss_fn (effective_amp a)
            (epochs a * int (length (loader_train a)) + int (length (loader_train a)) - 1)
            (epochs a * int (length (loader_train a)))"
    using assms(3) n f last_concat_map_upto [of 1 "epochs a" "length (loader_train a)"
        "\<lambda>e i. After_loss_fn (effective_amp a) (e * int (length (loader_train a)) + int i)
           (epochs a * int (length (loader_train a)))"]
    by (simp add: d add_diff_eq)
  moreover from n have "epochs a * int (length (loader_train a)) \<le>
          epochs a * int (length (loader_train a)) + int (length (loader_train a)) - 1"
    by simp
  moreover have "(epochs a * int (length (loader_train a)) <
           epochs a * int (length (loader_train a)) + int (length (loader_train a)) - 1)
         \<longleftrightarrow> 2 \<le> length (loader_train a)"
    by auto
  ultimately show ?thesis using r f by blast
qed

theorem after_loss_fn_iter_index_witness:
  "\<exists>s b. train (demo_args\<lparr>loader_train := [0, 1], epochs := 2\<rparr>) (counting_world []) 0 = Inr (s, b) \<and>
     filter is_after_loss (trace s) =
       [After_loss_fn False 2 4, After_loss_fn False 3 4,
        After_loss_fn False 4 4, After_loss_fn False 5 4]"
proof -
  have rt: "runs_through (demo_args\<lparr>loader_train := [0, 1], epochs := 2\<rparr>)"
    by (simp add: runs_through_def demo_args_def)
  have u: "[1..2] = [1, 2::int]" by (simp add: upto_rec1)
  have ne: "loader_train (demo_args\<lparr>loader_train := [0, 1], epochs := 2\<rparr>) \<noteq> []"
    by (simp add: demo_args_def)
  from after_loss_fn_iter_index [OF rt _ _ ne, where c = "counting_world []" and w = 0] u show ?thesis
    by (auto simp: demo_args_def effective_amp_def upt_conv_Cons)
qed

text \<open>
  With one batch and one epoch the only call gets the index 1 and the total 1: the
  last index does not exceed the total.
\<close>

theorem after_loss_fn_final_index_counterexample:
  "\<exists>s b. train single_epoch_args (counting_world []) 0 = Inr (s, b) \<and>
     filter is_after_loss (trace s) = [After_loss_fn False 1 1] \<and>
     \<not> (epochs single_epoch_args * int (length (loader_train single_epoch_args))
        < epochs single_epoch_args * int (length (loader_train single_epoch_args))
          + int (length (loader_train single_epoch_args)) - 1)"
proof -
  have rt: "runs_through single_epoch_args"
    by (simp add: runs_through_def demo_args_def single_epoch_args_def)
  have u: "[1..1] = [1::int]" by (simp add: upto_rec1)
  from after_loss_train [OF rt, where c = "counting_world []" and w = 0] u show ?thesis
    by (auto simp: demo_args_def effective_amp_def single_epoch_args_def)
qed

end
